theory Spec2Isabelle
  imports Complex_Main "HOL-Library.Product_Lexorder"
begin

section \<open>Conventions of the embedding\<close>

text \<open>
  The development embeds parts of \<^verbatim>\<open>DuMMForceFieldSubsystem.cpp\<close>.
  \<^item> \<^verbatim>\<open>Real\<close> (a C++ double) is the type \<open>real\<close>. Arithmetic is exact, and rounding is
    outside the model, everywhere but in \<^verbatim>\<open>BondTorsion::periodic\<close>: that routine compares
    computed values with zero, and its model rounds every operation to a double (section
    "Double arithmetic"). Overflow and infinities are outside the model throughout. A
    \<^verbatim>\<open>Real\<close> field that the source fills with the marker \<^verbatim>\<open>NaN\<close> is a \<open>real option\<close>,
    \<open>None\<close> being the marker.
  \<^item> The index types (\<^verbatim>\<open>DuMM::AtomIndex\<close>, \<^verbatim>\<open>DuMM::AtomClassIndex\<close>, ...) wrap an
    \<^verbatim>\<open>int\<close>; they are \<open>int\<close> here, and \<open>-1\<close> is the invalid index.
  \<^item> A \<^verbatim>\<open>std::vector\<close> is a list, a \<^verbatim>\<open>std::map\<close> is a map \<open>'k \<rightharpoonup> 'v\<close>. The
    comparison operators of the index tuples are lexicographic, hence total orders
    whose equivalence is equality, so a map keyed by the tuple itself finds the same
    entries as \<^verbatim>\<open>std::map::find\<close>.
  \<^item> \<^verbatim>\<open>SimTK_APIARGCHECK_ALWAYS\<close> and \<^verbatim>\<open>SimTK_REALIZECHECK_ALWAYS\<close> throw. A method
    that uses them returns the pair of an \<open>error option\<close> (\<open>None\<close> when it returned
    normally) and the state it leaves behind, since a throw does not undo the writes
    made before it. \<^verbatim>\<open>assert\<close> is compiled out of a release build and is not a branch
    of the model. Indexing a \<^verbatim>\<open>std::vector\<close> outside its bounds is undefined in C++;
    the API methods modelled here report it as \<open>UndefinedBehaviour\<close>.
\<close>

datatype error =
    APIArgcheckFailed
  | RealizeCheckFailed
  | ExceptionBase
  | UndefinedBehaviour

section \<open>Index tuples\<close>

type_synonym IndexPair = "int \<times> int"
type_synonym IndexTriple = "int \<times> int \<times> int"
type_synonym IndexQuad = "int \<times> int \<times> int \<times> int"

definition InvalidIndex :: int where
  "InvalidIndex = -1"

text \<open>\<^verbatim>\<open>IndexPair::canonicalize\<close>: canonical is low, high.\<close>

fun canonicalizePair :: "IndexPair \<Rightarrow> IndexPair" where
  "canonicalizePair (i0, i1) = (if i0 > i1 then (i1, i0) else (i0, i1))"

text \<open>\<^verbatim>\<open>IndexTriple::canonicalize\<close>: first number \<open>\<le>\<close> last number, the middle stays put.\<close>

fun canonicalizeTriple :: "IndexTriple \<Rightarrow> IndexTriple" where
  "canonicalizeTriple (i0, i1, i2) = (if i0 > i2 then (i2, i1, i0) else (i0, i1, i2))"

fun isValidTriple :: "IndexTriple \<Rightarrow> bool" where
  "isValidTriple (i0, i1, i2) \<longleftrightarrow> i0 \<ge> 0 \<and> i1 \<ge> 0 \<and> i2 \<ge> 0"

definition invalidTriple :: IndexTriple where
  "invalidTriple = (InvalidIndex, InvalidIndex, InvalidIndex)"

text \<open>
  \<^verbatim>\<open>IndexQuad::canonicalize\<close>: the two \<^verbatim>\<open>std::swap\<close> calls exchange positions 0 and 3
  and positions 1 and 2.
\<close>

fun canonicalizeQuad :: "IndexQuad \<Rightarrow> IndexQuad" where
  "canonicalizeQuad (i0, i1, i2, i3) =
     (if i0 > i3 \<or> (i0 = i3 \<and> i1 > i2) then (i3, i2, i1, i0) else (i0, i1, i2, i3))"

text \<open>The constructor \<^verbatim>\<open>IndexQuad(i1, i2, i3, i4, canon)\<close>.\<close>

definition mkIndexQuad :: "int \<Rightarrow> int \<Rightarrow> int \<Rightarrow> int \<Rightarrow> bool \<Rightarrow> IndexQuad" where
  "mkIndexQuad i1 i2 i3 i4 canon =
     (if canon then canonicalizeQuad (i1, i2, i3, i4) else (i1, i2, i3, i4))"

section \<open>Van der Waals combining rules\<close>

definition arithmeticMean :: "real \<Rightarrow> real \<Rightarrow> real" where
  "arithmeticMean a b = 0.5 * (a + b)"

definition geometricMean :: "real \<Rightarrow> real \<Rightarrow> real" where
  "geometricMean a b = sqrt (a * b)"

definition harmonicMean :: "real \<Rightarrow> real \<Rightarrow> real" where
  "harmonicMean a b = (2 * a * b) / (a + b)"

definition cubicMean :: "real \<Rightarrow> real \<Rightarrow> real" where
  "cubicMean a b = (a * a * a + b * b * b) / (a * a + b * b)"

definition hhgMean :: "real \<Rightarrow> real \<Rightarrow> real" where
  "hhgMean a b = harmonicMean (harmonicMean a b) (geometricMean a b)"

text \<open>Each combining function returns the pair \<open>(r, e)\<close> of its two output parameters.\<close>

definition vdwCombineLorentzBerthelot :: "real \<Rightarrow> real \<Rightarrow> real \<Rightarrow> real \<Rightarrow> real \<times> real" where
  "vdwCombineLorentzBerthelot ri rj ei ej = (arithmeticMean ri rj, geometricMean ei ej)"

definition vdwCombineJorgensen :: "real \<Rightarrow> real \<Rightarrow> real \<Rightarrow> real \<Rightarrow> real \<times> real" where
  "vdwCombineJorgensen ri rj ei ej = (geometricMean ri rj, geometricMean ei ej)"

definition vdwCombineHalgrenHHG :: "real \<Rightarrow> real \<Rightarrow> real \<Rightarrow> real \<Rightarrow> real \<times> real" where
  "vdwCombineHalgrenHHG ri rj ei ej = (cubicMean ri rj, hhgMean ei ej)"

definition oo6 :: real where
  "oo6 = 1 / 6"

definition oo13 :: real where
  "oo13 = 1 / 13"

text \<open>
  \<^verbatim>\<open>std::pow\<close> with a real exponent is \<open>powr\<close>; \<^verbatim>\<open>std::pow(x, 13)\<close> is the power
  \<open>x ^ 13\<close>.
\<close>

definition vdwCombineWaldmanHagler :: "real \<Rightarrow> real \<Rightarrow> real \<Rightarrow> real \<Rightarrow> real \<times> real" where
  "vdwCombineWaldmanHagler ri rj ei ej =
     (let ri3 = ri * ri * ri; ri6 = ri3 * ri3;
          rj3 = rj * rj * rj; rj6 = rj3 * rj3;
          er6 = geometricMean (ei * ri6) (ej * rj6);
          r6 = arithmeticMean ri6 rj6
      in (r6 powr oo6, er6 / r6))"

definition vdwCombineKong :: "real \<Rightarrow> real \<Rightarrow> real \<Rightarrow> real \<Rightarrow> real \<times> real" where
  "vdwCombineKong ri rj ei ej =
     (let ri3 = ri * ri * ri; ri6 = ri3 * ri3; ri12 = ri6 * ri6;
          rj3 = rj * rj * rj; rj6 = rj3 * rj3; rj12 = rj6 * rj6;
          er6 = geometricMean (ei * ri6) (ej * rj6);
          eri12_13 = (ei * ri12) powr oo13;
          erj12_13 = (ej * rj12) powr oo13;
          er12_13 = arithmeticMean eri12_13 erj12_13;
          r6 = er12_13 ^ 13 / er6
      in (r6 powr oo6, er6 / r6))"

datatype VdwMixingRule = WaldmanHagler | HalgrenHHG | Jorgensen | LorentzBerthelot | Kong

text \<open>
  \<^verbatim>\<open>applyMixingRule\<close> returns the pair \<open>(dmin, emin)\<close> of its output parameters; the
  selected combining function writes the local \<^verbatim>\<open>rmin\<close> and \<^verbatim>\<open>emin\<close>. The enumeration
  has five values, so the \<^verbatim>\<open>default\<close> branch of the switch has no counterpart.
\<close>

definition applyMixingRule :: "VdwMixingRule \<Rightarrow> real \<Rightarrow> real \<Rightarrow> real \<Rightarrow> real \<Rightarrow> real \<times> real" where
  "applyMixingRule rule ri rj ei ej =
     (case (case rule of
              WaldmanHagler \<Rightarrow> vdwCombineWaldmanHagler ri rj ei ej
            | HalgrenHHG \<Rightarrow> vdwCombineHalgrenHHG ri rj ei ej
            | Jorgensen \<Rightarrow> vdwCombineJorgensen ri rj ei ej
            | LorentzBerthelot \<Rightarrow> vdwCombineLorentzBerthelot ri rj ei ej
            | Kong \<Rightarrow> vdwCombineKong ri rj ei ej)
      of (rmin, emin) \<Rightarrow> (2 * rmin, emin))"

section \<open>Force field parameter classes\<close>

record AtomClass =
  atomClassIx :: int
  element :: int
  valence :: int
  vdwRadius :: "real option"
  vdwWellDepth :: "real option"

text \<open>The default constructor \<^verbatim>\<open>AtomClass()\<close>; the index type initialises itself invalid.\<close>

definition defaultAtomClass :: AtomClass where
  "defaultAtomClass =
     \<lparr>atomClassIx = InvalidIndex, element = -1, valence = -1,
      vdwRadius = Some (-1), vdwWellDepth = Some (-1)\<rparr>"

definition AtomClass_isValid :: "AtomClass \<Rightarrow> bool" where
  "AtomClass_isValid c \<longleftrightarrow> atomClassIx c \<ge> 0 \<and> element c > 0 \<and> valence c \<ge> 0"

text \<open>
  The fields \<^verbatim>\<open>chargedAtomTypeIndex\<close> and \<^verbatim>\<open>atomClassIx\<close> of \<^verbatim>\<open>ChargedAtomType\<close> are
  \<open>typeIndex\<close> and \<open>typeAtomClassIx\<close> here: \<^verbatim>\<open>Atom\<close> and \<^verbatim>\<open>AtomClass\<close> have fields of
  the same names.
\<close>

record ChargedAtomType =
  typeIndex :: int
  typeAtomClassIx :: int
  partialCharge :: "real option"

definition defaultChargedAtomType :: ChargedAtomType where
  "defaultChargedAtomType =
     \<lparr>typeIndex = InvalidIndex, typeAtomClassIx = InvalidIndex, partialCharge = None\<rparr>"

definition ChargedAtomType_isValid :: "ChargedAtomType \<Rightarrow> bool" where
  "ChargedAtomType_isValid t \<longleftrightarrow> typeIndex t \<ge> 0 \<and> typeAtomClassIx t \<ge> 0"

record BondStretch =
  stretchClasses :: IndexPair
  stretchK :: real
  stretchD0 :: real

definition dummyBondStretch :: BondStretch where
  "dummyBondStretch = \<lparr>stretchClasses = (InvalidIndex, InvalidIndex), stretchK = -1, stretchD0 = -1\<rparr>"

definition BondStretch_isValid :: "BondStretch \<Rightarrow> bool" where
  "BondStretch_isValid bs \<longleftrightarrow>
     stretchK bs \<ge> 0 \<and> stretchD0 bs \<ge> 0
     \<and> fst (stretchClasses bs) \<noteq> InvalidIndex \<and> snd (stretchClasses bs) \<noteq> InvalidIndex"

record BondBend =
  bendClasses :: IndexTriple
  bendK :: real
  bendTheta0 :: real

definition dummyBondBend :: BondBend where
  "dummyBondBend =
     \<lparr>bendClasses = (InvalidIndex, InvalidIndex, InvalidIndex), bendK = -1, bendTheta0 = -1\<rparr>"

definition BondBend_isValid :: "BondBend \<Rightarrow> bool" where
  "BondBend_isValid bb \<longleftrightarrow> bendK bb \<ge> 0 \<and> (0 \<le> bendTheta0 bb \<and> bendTheta0 bb \<le> pi)"

text \<open>
  Modelled from the spec: the constant \<^verbatim>\<open>DuMM::Deg2Rad\<close> is declared in a header that is
  not part of the sources; angles are degrees at the API boundary and radians inside.
\<close>

definition Deg2Rad :: real where
  "Deg2Rad = pi / 180"

record TorsionTerm =
  periodicity :: int
  amplitude :: real
  theta0 :: real

text \<open>The constructor \<^verbatim>\<open>TorsionTerm(n, ampInKJ, th0InDeg)\<close>.\<close>

definition mkTorsionTerm :: "int \<Rightarrow> real \<Rightarrow> real \<Rightarrow> TorsionTerm" where
  "mkTorsionTerm n ampInKJ th0InDeg =
     \<lparr>periodicity = n, amplitude = ampInKJ, theta0 = th0InDeg * Deg2Rad\<rparr>"

record BondTorsion =
  torsionClasses :: IndexQuad
  terms :: "TorsionTerm list"

definition mkBondTorsion :: "IndexQuad \<Rightarrow> BondTorsion" where
  "mkBondTorsion key = \<lparr>torsionClasses = key, terms = []\<rparr>"

definition dummyBondTorsion :: BondTorsion where
  "dummyBondTorsion = mkBondTorsion (InvalidIndex, InvalidIndex, InvalidIndex, InvalidIndex)"

definition addTerm :: "TorsionTerm \<Rightarrow> BondTorsion \<Rightarrow> BondTorsion" where
  "addTerm tt bt = bt\<lparr>terms := terms bt @ [tt]\<rparr>"

definition BondTorsion_isValid :: "BondTorsion \<Rightarrow> bool" where
  "BondTorsion_isValid bt \<longleftrightarrow> terms bt \<noteq> []"

definition hasTerm :: "BondTorsion \<Rightarrow> int \<Rightarrow> bool" where
  "hasTerm bt n \<longleftrightarrow> list_ex (\<lambda>t. periodicity t = n) (terms bt)"

text \<open>
  \<^verbatim>\<open>BondTorsion::operator==\<close>. Every \<^verbatim>\<open>return false\<close> inside the two loops is a
  conjunct that must hold for the loops to run to the final \<^verbatim>\<open>return true\<close>.
\<close>

definition termAgrees :: "TorsionTerm \<Rightarrow> TorsionTerm \<Rightarrow> bool" where
  "termAgrees myTerm otherTerm \<longleftrightarrow>
     (if periodicity otherTerm = periodicity myTerm
      then \<not> amplitude myTerm \<noteq> amplitude otherTerm \<and> \<not> theta0 myTerm \<noteq> theta0 otherTerm
      else True)"

definition BondTorsion_eq :: "BondTorsion \<Rightarrow> BondTorsion \<Rightarrow> bool" where
  "BondTorsion_eq bt other \<longleftrightarrow>
     (if length (terms bt) \<noteq> length (terms other) then False
      else list_all (\<lambda>myTerm. hasTerm other (periodicity myTerm)
                              \<and> list_all (termAgrees myTerm) (terms other)) (terms bt))"

section \<open>Atoms, bodies and the subsystem state\<close>

type_synonym Vec3 = "real \<times> real \<times> real"

record Atom =
  atomIndex :: int
  chargedAtomTypeIndex :: int
  bond12 :: "int list"
  bodyIx :: int
  station_B :: Vec3
  bond13 :: "IndexPair list"
  bond14 :: "IndexTriple list"
  bond15 :: "IndexQuad list"
  shortPath13 :: "IndexPair list"
  shortPath14 :: "IndexTriple list"
  shortPath15 :: "IndexQuad list"
  bonds3Atoms :: IndexTriple
  xbond12 :: "int list"
  xbond13 :: "IndexPair list"
  xbond14 :: "IndexTriple list"
  xbond15 :: "IndexQuad list"
  xshortPath13 :: "IndexPair list"
  xshortPath14 :: "IndexTriple list"
  xshortPath15 :: "IndexQuad list"
  xbonds3Atoms :: IndexTriple
  aImproperTorsion14 :: "IndexTriple list"
  aImproperTorsion :: "BondTorsion list"
  stretch :: "BondStretch list"
  bend :: "BondBend list"
  torsion :: "BondTorsion list"

text \<open>An \<^verbatim>\<open>AtomPlacement\<close> is the pair of the atom index and its station.\<close>

type_synonym AtomPlacement = "int \<times> Vec3"

record DuMMBody =
  clusterIndex :: int
  mobilizedBodyIndex :: int
  allAtoms :: "AtomPlacement list"

record DuMMForceFieldSubsystemRep =
  atoms :: "Atom list"
  duMMSubsetOfBodies :: "DuMMBody list"
  atomClasses :: "AtomClass list"
  chargedAtomTypes :: "ChargedAtomType list"
  bondStretch :: "IndexPair \<rightharpoonup> BondStretch"
  bondBend :: "IndexTriple \<rightharpoonup> BondBend"
  bondTorsion :: "IndexQuad \<rightharpoonup> BondTorsion"
  amberImproperTorsion :: "IndexQuad \<rightharpoonup> BondTorsion"
  vdwMixingRule :: VdwMixingRule
  vdwScale12 :: real
  coulombScale12 :: real
  vdwScale13 :: real
  coulombScale13 :: real
  vdwScale14 :: real
  coulombScale14 :: real
  vdwScale15 :: real
  coulombScale15 :: real
  bondStretchGlobalScaleFactor :: real
  topologyCacheValid :: bool

text \<open>
  \<^verbatim>\<open>invalidateSubsystemTopologyCache\<close> belongs to the base class; all that is visible of
  it here is that the topology stage has to be realized again.
\<close>

definition invalidateSubsystemTopologyCache ::
  "DuMMForceFieldSubsystemRep \<Rightarrow> DuMMForceFieldSubsystemRep" where
  "invalidateSubsystemTopologyCache mm = mm\<lparr>topologyCacheValid := False\<rparr>"

definition isValidAtomClass :: "DuMMForceFieldSubsystemRep \<Rightarrow> int \<Rightarrow> bool" where
  "isValidAtomClass mm classNum \<longleftrightarrow>
     0 \<le> classNum \<and> classNum < int (length (atomClasses mm))
     \<and> AtomClass_isValid (atomClasses mm ! nat classNum)"

definition isValidChargedAtomType :: "DuMMForceFieldSubsystemRep \<Rightarrow> int \<Rightarrow> bool" where
  "isValidChargedAtomType mm typeNum \<longleftrightarrow>
     0 \<le> typeNum \<and> typeNum < int (length (chargedAtomTypes mm))
     \<and> ChargedAtomType_isValid (chargedAtomTypes mm ! nat typeNum)"

section \<open>Registry setters\<close>

text \<open>
  \<^verbatim>\<open>setAtomClassVdwParameters\<close>: three argument checks, then the slot
  \<^verbatim>\<open>mm.atomClasses[atomClassIx]\<close> is written.
\<close>

definition setAtomClassVdwParameters ::
  "int \<Rightarrow> real \<Rightarrow> real \<Rightarrow> DuMMForceFieldSubsystemRep \<Rightarrow> error option \<times> DuMMForceFieldSubsystemRep" where
  "setAtomClassVdwParameters ix vdwRadiusInNm vdwWellDepthInKJPerMol mm0 =
     (let mm = invalidateSubsystemTopologyCache mm0 in
      if \<not> ix \<ge> 0 then (Some APIArgcheckFailed, mm)
      else if \<not> vdwRadiusInNm \<ge> 0 then (Some APIArgcheckFailed, mm)
      else if \<not> vdwWellDepthInKJPerMol \<ge> 0 then (Some APIArgcheckFailed, mm)
      else if \<not> ix < int (length (atomClasses mm)) then (Some UndefinedBehaviour, mm)
      else (None,
            mm\<lparr>atomClasses := (atomClasses mm)
                  [nat ix := (atomClasses mm ! nat ix)
                     \<lparr>vdwRadius := Some vdwRadiusInNm,
                      vdwWellDepth := Some vdwWellDepthInKJPerMol\<rparr>]\<rparr>))"

text \<open>\<^verbatim>\<open>setChargedAtomTypeCharge\<close>: one argument check, then the slot is written.\<close>

definition setChargedAtomTypeCharge ::
  "int \<Rightarrow> real \<Rightarrow> DuMMForceFieldSubsystemRep \<Rightarrow> error option \<times> DuMMForceFieldSubsystemRep" where
  "setChargedAtomTypeCharge ix charge mm0 =
     (let mm = invalidateSubsystemTopologyCache mm0 in
      if \<not> ix \<ge> 0 then (Some APIArgcheckFailed, mm)
      else if \<not> ix < int (length (chargedAtomTypes mm)) then (Some UndefinedBehaviour, mm)
      else (None,
            mm\<lparr>chargedAtomTypes := (chargedAtomTypes mm)
                  [nat ix := (chargedAtomTypes mm ! nat ix)\<lparr>partialCharge := Some charge\<rparr>]\<rparr>))"

section \<open>Defining torsions\<close>

text \<open>
  \<^verbatim>\<open>checkTorsion\<close> is \<open>True\<close> when none of its argument checks throws. The checks are
  evaluated in the order of the source; all of them throw the same exception.
\<close>

definition checkTerm :: "int \<Rightarrow> real \<Rightarrow> real \<Rightarrow> bool" where
  "checkTerm p ampInKJ phaseInDegrees \<longleftrightarrow>
     (1 \<le> p \<and> p \<le> 6) \<and> ampInKJ \<ge> 0 \<and> (0 \<le> phaseInDegrees \<and> phaseInDegrees \<le> 180)"

definition checkTorsion ::
  "DuMMForceFieldSubsystemRep \<Rightarrow> int \<Rightarrow> int \<Rightarrow> int \<Rightarrow> int
   \<Rightarrow> int \<Rightarrow> real \<Rightarrow> real \<Rightarrow> int \<Rightarrow> real \<Rightarrow> real \<Rightarrow> int \<Rightarrow> real \<Rightarrow> real \<Rightarrow> bool" where
  "checkTorsion mm class1 class2 class3 class4 p1 amp1 phase1 p2 amp2 phase2 p3 amp3 phase3 \<longleftrightarrow>
     isValidAtomClass mm class1 \<and> isValidAtomClass mm class2
     \<and> isValidAtomClass mm class3 \<and> isValidAtomClass mm class4
     \<and> (p1 \<noteq> -1 \<or> p2 \<noteq> -1 \<or> p3 \<noteq> -1)
     \<and> (if p1 \<noteq> -1 then checkTerm p1 amp1 phase1 \<and> (p2 \<noteq> p1 \<and> p3 \<noteq> p1) else True)
     \<and> (if p2 \<noteq> -1 then checkTerm p2 amp2 phase2 \<and> p3 \<noteq> p2 else True)
     \<and> (if p3 \<noteq> -1 then checkTerm p3 amp3 phase3 else True)"

text \<open>The three conditional \<^verbatim>\<open>addTerm\<close> calls shared by both definition methods.\<close>

definition buildTorsion ::
  "IndexQuad \<Rightarrow> int \<Rightarrow> real \<Rightarrow> real \<Rightarrow> int \<Rightarrow> real \<Rightarrow> real \<Rightarrow> int \<Rightarrow> real \<Rightarrow> real \<Rightarrow> BondTorsion" where
  "buildTorsion key p1 amp1 phase1 p2 amp2 phase2 p3 amp3 phase3 =
     (let bt0 = mkBondTorsion key;
          bt1 = (if p1 \<noteq> -1 then addTerm (mkTorsionTerm p1 amp1 phase1) bt0 else bt0);
          bt2 = (if p2 \<noteq> -1 then addTerm (mkTorsionTerm p2 amp2 phase2) bt1 else bt1);
          bt3 = (if p3 \<noteq> -1 then addTerm (mkTorsionTerm p3 amp3 phase3) bt2 else bt2)
      in bt3)"

text \<open>
  \<^verbatim>\<open>defineBondTorsion\<close>: the key is canonicalized; an existing entry that compares equal
  lets the call return; otherwise \<^verbatim>\<open>std::map::insert\<close> leaves an existing entry alone
  and reports it, and the report is turned into an exception.
\<close>

definition defineBondTorsion ::
  "int \<Rightarrow> int \<Rightarrow> int \<Rightarrow> int \<Rightarrow> int \<Rightarrow> real \<Rightarrow> real \<Rightarrow> int \<Rightarrow> real \<Rightarrow> real \<Rightarrow> int \<Rightarrow> real \<Rightarrow> real
   \<Rightarrow> DuMMForceFieldSubsystemRep \<Rightarrow> error option \<times> DuMMForceFieldSubsystemRep" where
  "defineBondTorsion class1 class2 class3 class4 p1 amp1 phase1 p2 amp2 phase2 p3 amp3 phase3 mm0 =
     (let mm = invalidateSubsystemTopologyCache mm0 in
      if \<not> checkTorsion mm class1 class2 class3 class4 p1 amp1 phase1 p2 amp2 phase2 p3 amp3 phase3
      then (Some APIArgcheckFailed, mm)
      else
        let key = mkIndexQuad class1 class2 class3 class4 True;
            bt = buildTorsion key p1 amp1 phase1 p2 amp2 phase2 p3 amp3 phase3
        in if (case bondTorsion mm key of
                 Some oldBondTorsion \<Rightarrow> BondTorsion_eq oldBondTorsion bt
               | None \<Rightarrow> False)
           then (None, mm)
           else (case bondTorsion mm key of
                   None \<Rightarrow> (None, mm\<lparr>bondTorsion := (bondTorsion mm)(key \<mapsto> bt)\<rparr>)
                 | Some _ \<Rightarrow> (Some APIArgcheckFailed, mm)))"

text \<open>
  \<^verbatim>\<open>defineAmberImproperTorsion\<close>: the key is not canonicalized, and the insertion is
  attempted directly.
\<close>

definition defineAmberImproperTorsion ::
  "int \<Rightarrow> int \<Rightarrow> int \<Rightarrow> int \<Rightarrow> int \<Rightarrow> real \<Rightarrow> real \<Rightarrow> int \<Rightarrow> real \<Rightarrow> real \<Rightarrow> int \<Rightarrow> real \<Rightarrow> real
   \<Rightarrow> DuMMForceFieldSubsystemRep \<Rightarrow> error option \<times> DuMMForceFieldSubsystemRep" where
  "defineAmberImproperTorsion class1 class2 class3 class4
       p1 amp1 phase1 p2 amp2 phase2 p3 amp3 phase3 mm0 =
     (let mm = invalidateSubsystemTopologyCache mm0 in
      if \<not> checkTorsion mm class1 class2 class3 class4 p1 amp1 phase1 p2 amp2 phase2 p3 amp3 phase3
      then (Some APIArgcheckFailed, mm)
      else
        let key = mkIndexQuad class1 class2 class3 class4 False;
            bt = buildTorsion key p1 amp1 phase1 p2 amp2 phase2 p3 amp3 phase3
        in (case amberImproperTorsion mm key of
              None \<Rightarrow> (None, mm\<lparr>amberImproperTorsion := (amberImproperTorsion mm)(key \<mapsto> bt)\<rparr>)
            | Some _ \<Rightarrow> (Some APIArgcheckFailed, mm)))"

section \<open>Parameter lookup\<close>

definition getBondStretch :: "DuMMForceFieldSubsystemRep \<Rightarrow> int \<Rightarrow> int \<Rightarrow> BondStretch" where
  "getBondStretch mm class1 class2 =
     (case bondStretch mm (canonicalizePair (class1, class2)) of
        Some bs \<Rightarrow> bs | None \<Rightarrow> dummyBondStretch)"

definition getBondBend :: "DuMMForceFieldSubsystemRep \<Rightarrow> int \<Rightarrow> int \<Rightarrow> int \<Rightarrow> BondBend" where
  "getBondBend mm class1 class2 class3 =
     (case bondBend mm (canonicalizeTriple (class1, class2, class3)) of
        Some bb \<Rightarrow> bb | None \<Rightarrow> dummyBondBend)"

definition getBondTorsion :: "DuMMForceFieldSubsystemRep \<Rightarrow> int \<Rightarrow> int \<Rightarrow> int \<Rightarrow> int \<Rightarrow> BondTorsion" where
  "getBondTorsion mm class1 class2 class3 class4 =
     (case bondTorsion mm (mkIndexQuad class1 class2 class3 class4 True) of
        Some bt \<Rightarrow> bt | None \<Rightarrow> dummyBondTorsion)"

definition getAmberImproperTorsion ::
  "DuMMForceFieldSubsystemRep \<Rightarrow> int \<Rightarrow> int \<Rightarrow> int \<Rightarrow> int \<Rightarrow> BondTorsion" where
  "getAmberImproperTorsion mm class1 class2 class3 class4 =
     (case amberImproperTorsion mm (mkIndexQuad class1 class2 class3 class4 False) of
        Some bt \<Rightarrow> bt | None \<Rightarrow> dummyBondTorsion)"

definition getAtomClassIndex :: "DuMMForceFieldSubsystemRep \<Rightarrow> int \<Rightarrow> int" where
  "getAtomClassIndex mm atomIx =
     typeAtomClassIx (chargedAtomTypes mm ! nat (chargedAtomTypeIndex (atoms mm ! nat atomIx)))"

section \<open>Topology realization: the loop over the atoms\<close>

text \<open>
  The model covers, of \<^verbatim>\<open>realizeSubsystemTopologyImpl\<close>: the first loop (every atom needs a
  valid charged atom type), the clearing of the atoms' cache entries, the assignment of
  body and station to the atoms, and the last loop, which fills in the bonded data of
  every atom. The mixed van der Waals table and the cluster pass are not modelled; the
  \<^verbatim>\<open>allAtoms\<close> list of a body is taken as \<^verbatim>\<open>DuMMBody::realizeTopologicalCache\<close> leaves it.
\<close>

definition atomAt :: "Atom list \<Rightarrow> int \<Rightarrow> Atom" where
  "atomAt as i = as ! nat i"

text \<open>
  The 1-3 lists. The state of the two nested loops is the triple of \<^verbatim>\<open>a.bond13\<close>,
  \<^verbatim>\<open>a.shortPath13\<close> and the set \<^verbatim>\<open>allBondedSoFar\<close>.
\<close>

definition step13 ::
  "int \<Rightarrow> int \<Rightarrow> int \<Rightarrow> IndexPair list \<times> IndexPair list \<times> int set
   \<Rightarrow> IndexPair list \<times> IndexPair list \<times> int set" where
  "step13 anum b newAtom st =
     (case st of (b13, sp13, allBondedSoFar) \<Rightarrow>
        if newAtom = anum then st
        else if newAtom \<notin> allBondedSoFar
             then (b13 @ [(b, newAtom)], sp13 @ [(b, newAtom)], insert newAtom allBondedSoFar)
             else (b13 @ [(b, newAtom)], sp13, allBondedSoFar))"

definition build13 ::
  "Atom list \<Rightarrow> int \<Rightarrow> int list \<Rightarrow> int set \<Rightarrow> IndexPair list \<times> IndexPair list \<times> int set" where
  "build13 as anum b12 allBondedSoFar =
     fold (\<lambda>b. fold (step13 anum b) (bond12 (atomAt as b))) b12 ([], [], allBondedSoFar)"

text \<open>The all-paths 1-4 list, built from the sorted 1-3 list.\<close>

definition build14 :: "Atom list \<Rightarrow> int \<Rightarrow> IndexPair list \<Rightarrow> IndexTriple list" where
  "build14 as anum b13 =
     concat (map (\<lambda>p. map (\<lambda>newAtom. (fst p, snd p, newAtom))
                         (filter (\<lambda>newAtom. newAtom \<noteq> anum \<and> newAtom \<noteq> fst p)
                                 (bond12 (atomAt as (snd p)))))
                 b13)"

text \<open>The shortest-path 1-4 list, built from the sorted shortest-path 1-3 list.\<close>

definition stepShort14 ::
  "IndexPair \<Rightarrow> int \<Rightarrow> IndexTriple list \<times> int set \<Rightarrow> IndexTriple list \<times> int set" where
  "stepShort14 p newAtom st =
     (case st of (sp14, allBondedSoFar) \<Rightarrow>
        if newAtom \<notin> allBondedSoFar
        then (sp14 @ [(fst p, snd p, newAtom)], insert newAtom allBondedSoFar)
        else st)"

definition buildShort14 ::
  "Atom list \<Rightarrow> IndexPair list \<Rightarrow> int set \<Rightarrow> IndexTriple list \<times> int set" where
  "buildShort14 as sp13 allBondedSoFar =
     fold (\<lambda>p. fold (stepShort14 p) (bond12 (atomAt as (snd p)))) sp13 ([], allBondedSoFar)"

text \<open>The all-paths 1-5 list, built from the sorted 1-4 list.\<close>

definition build15 :: "Atom list \<Rightarrow> int \<Rightarrow> IndexTriple list \<Rightarrow> IndexQuad list" where
  "build15 as anum b14 =
     concat (map (\<lambda>t. case t of (t0, t1, t2) \<Rightarrow>
                    map (\<lambda>newAtom. (t0, t1, t2, newAtom))
                        (filter (\<lambda>newAtom. newAtom \<noteq> anum \<and> newAtom \<noteq> t0 \<and> newAtom \<noteq> t1)
                                (bond12 (atomAt as t2))))
                 b14)"

text \<open>The shortest-path 1-5 list, built from the sorted shortest-path 1-4 list.\<close>

definition stepShort15 ::
  "IndexTriple \<Rightarrow> int \<Rightarrow> IndexQuad list \<times> int set \<Rightarrow> IndexQuad list \<times> int set" where
  "stepShort15 t newAtom st =
     (case st of (sp15, allBondedSoFar) \<Rightarrow>
        if newAtom \<notin> allBondedSoFar
        then (case t of (t0, t1, t2) \<Rightarrow>
                (sp15 @ [(t0, t1, t2, newAtom)], insert newAtom allBondedSoFar))
        else st)"

definition buildShort15 ::
  "Atom list \<Rightarrow> IndexTriple list \<Rightarrow> int set \<Rightarrow> IndexQuad list \<times> int set" where
  "buildShort15 as sp14 allBondedSoFar =
     fold (\<lambda>t. fold (stepShort15 t) (bond12 (atomAt as (snd (snd t))))) sp14 ([], allBondedSoFar)"

text \<open>
  Lines 2770 to 2889: the six lists of atom \<open>anum\<close>. The atom is a reference into the
  atom store, so the store read by the loops already holds the sorted \<^verbatim>\<open>bond12\<close>.
\<close>

definition buildBondLists :: "Atom list \<Rightarrow> int \<Rightarrow> Atom" where
  "buildBondLists as0 anum =
     (let a = (atomAt as0 anum)\<lparr>bond12 := sort (bond12 (atomAt as0 anum))\<rparr>;
          as = as0[nat anum := a];
          allBondedSoFar = insert anum {} \<union> set (bond12 a)
      in case build13 as anum (bond12 a) allBondedSoFar of (b13u, sp13u, seen13) \<Rightarrow>
         let b13 = sort b13u;
             sp13 = sort sp13u;
             b14 = sort (build14 as anum b13)
         in case buildShort14 as sp13 seen13 of (sp14u, seen14) \<Rightarrow>
            let sp14 = sort sp14u;
                b15 = sort (build15 as anum b14)
            in case buildShort15 as sp14 seen14 of (sp15u, seen15) \<Rightarrow>
               a\<lparr>bond13 := b13, shortPath13 := sp13,
                 bond14 := b14, shortPath14 := sp14,
                 bond15 := b15, shortPath15 := sort sp15u\<rparr>)"

text \<open>Lines 2891 to 2949: the center-of-three triple and the cross-body lists.\<close>

definition onOtherBody :: "Atom list \<Rightarrow> Atom \<Rightarrow> int \<Rightarrow> bool" where
  "onOtherBody as a i \<longleftrightarrow> bodyIx (atomAt as i) \<noteq> bodyIx a"

definition crossBodyLists :: "Atom list \<Rightarrow> Atom \<Rightarrow> Atom" where
  "crossBodyLists as a =
     (let b3 = (if length (bond12 a) = 3
                then (bond12 a ! 0, bond12 a ! 1, bond12 a ! 2) else invalidTriple)
      in a\<lparr>bonds3Atoms := b3,
           xbond12 := filter (onOtherBody as a) (bond12 a),
           xbond13 := filter (\<lambda>p. onOtherBody as a (fst p) \<or> onOtherBody as a (snd p)) (bond13 a),
           xshortPath13 :=
             filter (\<lambda>p. onOtherBody as a (fst p) \<or> onOtherBody as a (snd p)) (shortPath13 a),
           xbond14 := filter (\<lambda>t. case t of (t0, t1, t2) \<Rightarrow>
                          onOtherBody as a t0 \<or> onOtherBody as a t1 \<or> onOtherBody as a t2)
                        (bond14 a),
           xshortPath14 := filter (\<lambda>t. case t of (t0, t1, t2) \<Rightarrow>
                          onOtherBody as a t0 \<or> onOtherBody as a t1 \<or> onOtherBody as a t2)
                        (shortPath14 a),
           xbond15 := filter (\<lambda>q. case q of (q0, q1, q2, q3) \<Rightarrow>
                          onOtherBody as a q0 \<or> onOtherBody as a q1
                          \<or> onOtherBody as a q2 \<or> onOtherBody as a q3)
                        (bond15 a),
           xshortPath15 := filter (\<lambda>q. case q of (q0, q1, q2, q3) \<Rightarrow>
                          onOtherBody as a q0 \<or> onOtherBody as a q1
                          \<or> onOtherBody as a q2 \<or> onOtherBody as a q3)
                        (shortPath15 a),
           xbonds3Atoms :=
             (if isValidTriple b3
                 \<and> (case b3 of (t0, t1, t2) \<Rightarrow>
                      onOtherBody as a t0 \<or> onOtherBody as a t1 \<or> onOtherBody as a t2)
              then b3 else invalidTriple)\<rparr>)"

text \<open>
  Lines 2951 to 2990: one parameter entry per cross-body tuple. \<^verbatim>\<open>resize\<close> keeps what the
  vector held and pads with default-constructed entries; the loop then assigns the entries
  in turn and throws at the first one that is not valid.
\<close>

definition resizeVec :: "nat \<Rightarrow> 'a \<Rightarrow> 'a list \<Rightarrow> 'a list" where
  "resizeVec n dflt xs = take n xs @ replicate (n - length xs) dflt"

fun assignChecked ::
  "('k \<Rightarrow> 'p) \<Rightarrow> ('p \<Rightarrow> bool) \<Rightarrow> 'k list \<Rightarrow> nat \<Rightarrow> 'p list \<Rightarrow> error option \<times> 'p list" where
  "assignChecked get ok [] i ps = (None, ps)"
| "assignChecked get ok (k # ks) i ps =
     (if \<not> ok (get k) then (Some RealizeCheckFailed, ps[i := get k])
      else assignChecked get ok ks (Suc i) (ps[i := get k]))"

definition lookupStretch :: "DuMMForceFieldSubsystemRep \<Rightarrow> int \<Rightarrow> Atom \<Rightarrow> error option \<times> Atom" where
  "lookupStretch mm c1 a =
     (case assignChecked (\<lambda>a2. getBondStretch mm c1 (getAtomClassIndex mm a2)) BondStretch_isValid
             (xbond12 a) 0 (resizeVec (length (xbond12 a)) dummyBondStretch (stretch a))
      of (e, ps) \<Rightarrow> (e, a\<lparr>stretch := ps\<rparr>))"

definition lookupBend :: "DuMMForceFieldSubsystemRep \<Rightarrow> int \<Rightarrow> Atom \<Rightarrow> error option \<times> Atom" where
  "lookupBend mm c1 a =
     (case assignChecked
             (\<lambda>p. getBondBend mm c1 (getAtomClassIndex mm (fst p)) (getAtomClassIndex mm (snd p)))
             BondBend_isValid
             (xbond13 a) 0 (resizeVec (length (xbond13 a)) dummyBondBend (bend a))
      of (e, ps) \<Rightarrow> (e, a\<lparr>bend := ps\<rparr>))"

definition lookupTorsion :: "DuMMForceFieldSubsystemRep \<Rightarrow> int \<Rightarrow> Atom \<Rightarrow> error option \<times> Atom" where
  "lookupTorsion mm c1 a =
     (case assignChecked
             (\<lambda>t. case t of (t0, t1, t2) \<Rightarrow>
                getBondTorsion mm c1 (getAtomClassIndex mm t0) (getAtomClassIndex mm t1)
                  (getAtomClassIndex mm t2))
             BondTorsion_isValid
             (xbond14 a) 0 (resizeVec (length (xbond14 a)) dummyBondTorsion (torsion a))
      of (e, ps) \<Rightarrow> (e, a\<lparr>torsion := ps\<rparr>))"

text \<open>
  Lines 2999 to 3023: the Amber improper torsions of the atom. The three nested loops
  visit the orderings \<open>(i2, i3, i4)\<close> in the order of \<open>improperOrderings\<close>.

  The matched parameter is declared \<^verbatim>\<open>static const BondTorsion bt = ...\<close> inside the
  innermost loop. A local static is initialised the first time control passes through
  its declaration and never again, for the life of the process. The model threads the
  storage of that variable through the loop as a \<open>BondTorsion option\<close>: \<open>None\<close> before
  the first initialisation, \<open>Some bt\<close> after it.
\<close>

fun tripleNth :: "IndexTriple \<Rightarrow> nat \<Rightarrow> int" where
  "tripleNth (t0, t1, t2) i = (if i = 0 then t0 else if i = 1 then t1 else t2)"

definition improperOrderings :: "(nat \<times> nat \<times> nat) list" where
  "improperOrderings =
     concat (map (\<lambda>i2.
       concat (map (\<lambda>i3.
         map (\<lambda>i4. (i2, i3, i4)) (filter (\<lambda>i4. \<not> (i4 = i2 \<or> i4 = i3)) [0, 1, 2]))
       (filter (\<lambda>i3. \<not> i3 = i2) [0, 1, 2])))
     [0, 1, 2])"

definition improperQuadLookup ::
  "DuMMForceFieldSubsystemRep \<Rightarrow> int \<Rightarrow> IndexTriple \<Rightarrow> nat \<times> nat \<times> nat \<Rightarrow> BondTorsion" where
  "improperQuadLookup mm c1 x ord =
     (case ord of (i2, i3, i4) \<Rightarrow>
        getAmberImproperTorsion mm
          (getAtomClassIndex mm (tripleNth x i2))
          (getAtomClassIndex mm (tripleNth x i3))
          c1
          (getAtomClassIndex mm (tripleNth x i4)))"

definition improperStep ::
  "DuMMForceFieldSubsystemRep \<Rightarrow> int \<Rightarrow> IndexTriple \<Rightarrow> nat \<times> nat \<times> nat
   \<Rightarrow> BondTorsion option \<times> IndexTriple list \<times> BondTorsion list
   \<Rightarrow> BondTorsion option \<times> IndexTriple list \<times> BondTorsion list" where
  "improperStep mm c1 x ord st =
     (case st of (static_bt, t14, ts) \<Rightarrow>
        let bt = (case static_bt of
                    None \<Rightarrow> improperQuadLookup mm c1 x ord
                  | Some held \<Rightarrow> held)
        in if BondTorsion_isValid bt
           then (case ord of (i2, i3, i4) \<Rightarrow>
                   (Some bt, t14 @ [(tripleNth x i2, tripleNth x i3, tripleNth x i4)], ts @ [bt]))
           else (Some bt, t14, ts))"

definition realizeImproper ::
  "DuMMForceFieldSubsystemRep \<Rightarrow> int \<Rightarrow> BondTorsion option \<Rightarrow> Atom \<Rightarrow> BondTorsion option \<times> Atom" where
  "realizeImproper mm c1 static_bt a =
     (if isValidTriple (xbonds3Atoms a)
      then (case fold (improperStep mm c1 (xbonds3Atoms a)) improperOrderings (static_bt, [], [])
            of (static_bt', t14, ts) \<Rightarrow>
              (static_bt', a\<lparr>aImproperTorsion14 := t14, aImproperTorsion := ts\<rparr>))
      else (static_bt, a\<lparr>aImproperTorsion14 := [], aImproperTorsion := []\<rparr>))"

text \<open>
  The enumeration as the specification describes it, for comparison: every ordering is
  looked up afresh, and the orderings whose class quad has an entry are recorded with the
  parameter that matched.
\<close>

definition improperMatches_spec ::
  "DuMMForceFieldSubsystemRep \<Rightarrow> int \<Rightarrow> IndexTriple \<Rightarrow> (IndexTriple \<times> BondTorsion) list" where
  "improperMatches_spec mm c1 x =
     map (\<lambda>ord. case ord of (i2, i3, i4) \<Rightarrow>
            ((tripleNth x i2, tripleNth x i3, tripleNth x i4), improperQuadLookup mm c1 x ord))
         (filter (\<lambda>ord. case ord of (i2, i3, i4) \<Rightarrow>
                    amberImproperTorsion mm
                      (getAtomClassIndex mm (tripleNth x i2), getAtomClassIndex mm (tripleNth x i3),
                       c1, getAtomClassIndex mm (tripleNth x i4)) \<noteq> None)
                 improperOrderings)"

text \<open>
  Lines 2951 to 3023 for one atom: the three parameter loops, each of which throws out of
  the whole method at the first parameter that is missing, then the improper torsions.
  The result is the storage of the local static, the exception if one was thrown, and the
  atom as written so far.
\<close>

definition realizeAtomParams ::
  "DuMMForceFieldSubsystemRep \<Rightarrow> int \<Rightarrow> BondTorsion option \<Rightarrow> Atom
   \<Rightarrow> BondTorsion option \<times> error option \<times> Atom" where
  "realizeAtomParams mm c1 static_bt a =
     (case lookupStretch mm c1 a of
        (Some e, a3) \<Rightarrow> (static_bt, Some e, a3)
      | (None, a3) \<Rightarrow>
     (case lookupBend mm c1 a3 of
        (Some e, a4) \<Rightarrow> (static_bt, Some e, a4)
      | (None, a4) \<Rightarrow>
     (case lookupTorsion mm c1 a4 of
        (Some e, a5) \<Rightarrow> (static_bt, Some e, a5)
      | (None, a5) \<Rightarrow>
     (case realizeImproper mm c1 static_bt a5 of
        (static_bt', a6) \<Rightarrow> (static_bt', None, a6)))))"

text \<open>
  One iteration of the loop over the atoms (lines 2770 to 3024). The atom is a reference
  into the atom store, so every write lands in the store at once; the parameter lookups
  read the classes of other atoms from it.
\<close>

definition realizeAtom ::
  "int \<Rightarrow> BondTorsion option \<times> DuMMForceFieldSubsystemRep
   \<Rightarrow> BondTorsion option \<times> error option \<times> DuMMForceFieldSubsystemRep" where
  "realizeAtom anum st =
     (case st of (static_bt, mm) \<Rightarrow>
        let a1 = buildBondLists (atoms mm) anum;
            a2 = crossBodyLists ((atoms mm)[nat anum := a1]) a1;
            mm2 = mm\<lparr>atoms := (atoms mm)[nat anum := a2]\<rparr>;
            c1 = getAtomClassIndex mm2 anum
        in case realizeAtomParams mm2 c1 static_bt a2 of
             (static_bt', e, a') \<Rightarrow> (static_bt', e, mm\<lparr>atoms := (atoms mm)[nat anum := a']\<rparr>))"

fun realizeAtomLoop ::
  "nat list \<Rightarrow> BondTorsion option \<times> DuMMForceFieldSubsystemRep
   \<Rightarrow> BondTorsion option \<times> error option \<times> DuMMForceFieldSubsystemRep" where
  "realizeAtomLoop [] st = (fst st, None, snd st)"
| "realizeAtomLoop (anum # rest) st =
     (case realizeAtom (int anum) st of
        (static_bt, Some e, mm) \<Rightarrow> (static_bt, Some e, mm)
      | (static_bt, None, mm) \<Rightarrow> realizeAtomLoop rest (static_bt, mm))"

text \<open>\<^verbatim>\<open>Atom::invalidateTopologicalCache\<close>.\<close>

definition Atom_invalidateTopologicalCache :: "Atom \<Rightarrow> Atom" where
  "Atom_invalidateTopologicalCache a =
     a\<lparr>bond13 := [], bond14 := [], bond15 := [],
       xbond12 := [], xbond13 := [], xbond14 := [], xbond15 := [],
       shortPath13 := [], shortPath14 := [], shortPath15 := [],
       xshortPath13 := [], xshortPath14 := [], xshortPath15 := [],
       stretch := [], bend := [], torsion := [],
       bonds3Atoms := invalidTriple, xbonds3Atoms := invalidTriple,
       aImproperTorsion14 := [], aImproperTorsion := []\<rparr>"

definition DuMMBody_isValid :: "DuMMBody \<Rightarrow> bool" where
  "DuMMBody_isValid b \<longleftrightarrow> clusterIndex b \<ge> 0 \<and> mobilizedBodyIndex b \<noteq> InvalidIndex"

text \<open>Lines 2745 to 2761: every atom of a valid body receives the body and its station.\<close>

definition assignBody :: "DuMMBody \<Rightarrow> Atom list \<Rightarrow> Atom list" where
  "assignBody b as =
     (if \<not> DuMMBody_isValid b then as
      else fold (\<lambda>ap as'. as'[nat (fst ap) :=
                    (atomAt as' (fst ap))\<lparr>bodyIx := mobilizedBodyIndex b, station_B := snd ap\<rparr>])
                (allAtoms b) as)"

definition assignBodies :: "DuMMBody list \<Rightarrow> Atom list \<Rightarrow> Atom list" where
  "assignBodies bodies as = fold assignBody bodies (map (\<lambda>a. a\<lparr>bodyIx := InvalidIndex\<rparr>) as)"

definition realizeSubsystemTopologyImpl ::
  "BondTorsion option \<times> DuMMForceFieldSubsystemRep
   \<Rightarrow> BondTorsion option \<times> error option \<times> DuMMForceFieldSubsystemRep" where
  "realizeSubsystemTopologyImpl st =
     (case st of (static_bt, mm) \<Rightarrow>
        if \<not> list_all (\<lambda>a. isValidChargedAtomType mm (chargedAtomTypeIndex a)) (atoms mm)
        then (static_bt, Some ExceptionBase, mm)
        else
          let as1 = map Atom_invalidateTopologicalCache (atoms mm);
              as2 = assignBodies (duMMSubsetOfBodies mm) as1
          in realizeAtomLoop [0 ..< length as2] (static_bt, mm\<lparr>atoms := as2\<rparr>))"

section \<open>Vectors\<close>

text \<open>
  \<^verbatim>\<open>Vec3\<close> and its operators come from the SimTKcommon library: \<^verbatim>\<open>a % b\<close> is the cross
  product, \<^verbatim>\<open>~a * b\<close> the dot product and \<^verbatim>\<open>norm()\<close> the Euclidean length. A
  \<^verbatim>\<open>SpatialVec\<close> is the pair of a torque and a force.
\<close>

type_synonym SpatialVec = "Vec3 \<times> Vec3"

definition vzero :: Vec3 where
  "vzero = (0, 0, 0)"

fun vadd :: "Vec3 \<Rightarrow> Vec3 \<Rightarrow> Vec3" where
  "vadd (a0, a1, a2) (b0, b1, b2) = (a0 + b0, a1 + b1, a2 + b2)"

fun vsub :: "Vec3 \<Rightarrow> Vec3 \<Rightarrow> Vec3" where
  "vsub (a0, a1, a2) (b0, b1, b2) = (a0 - b0, a1 - b1, a2 - b2)"


fun smul :: "real \<Rightarrow> Vec3 \<Rightarrow> Vec3" where
  "smul c (a0, a1, a2) = (c * a0, c * a1, c * a2)"

fun dot :: "Vec3 \<Rightarrow> Vec3 \<Rightarrow> real" where
  "dot (a0, a1, a2) (b0, b1, b2) = a0 * b0 + a1 * b1 + a2 * b2"

fun cross :: "Vec3 \<Rightarrow> Vec3 \<Rightarrow> Vec3" where
  "cross (a0, a1, a2) (b0, b1, b2) = (a1 * b2 - a2 * b1, a2 * b0 - a0 * b2, a0 * b1 - a1 * b0)"

definition vnorm :: "Vec3 \<Rightarrow> real" where
  "vnorm a = sqrt (dot a a)"

definition svadd :: "SpatialVec \<Rightarrow> SpatialVec \<Rightarrow> SpatialVec" where
  "svadd p q = (vadd (fst p) (fst q), vadd (snd p) (snd q))"

definition svsub :: "SpatialVec \<Rightarrow> SpatialVec \<Rightarrow> SpatialVec" where
  "svsub p q = (vsub (fst p) (fst q), vsub (snd p) (snd q))"

section \<open>The force kernel: bond stretch\<close>

text \<open>
  Lines 3103 to 3124, the body of the bond stretch loop once the bond is not skipped.
  The ground-frame stations and positions of the two atoms are inputs here (the source
  computes them from the body transforms of the matter subsystem); \<open>bodyIndex1\<close> and \<open>b2\<close>
  index the force cache, and the pair \<open>(energyCache, forceCache)\<close> is the state updated.
\<close>

definition stretchForce :: "real \<Rightarrow> BondStretch \<Rightarrow> Vec3 \<Rightarrow> Vec3 \<Rightarrow> real \<times> Vec3" where
  "stretchForce globalScale bs a1Pos_G a2Pos_G =
     (let r = vsub a2Pos_G a1Pos_G;
          d = vnorm r;
          x = d - stretchD0 bs;
          k = globalScale * stretchK bs;
          eStretch = k * x * x;
          fStretch = - 2 * k * x;
          f2 = smul (fStretch / d) r
      in (eStretch, f2))"

definition stretchBond ::
  "real \<Rightarrow> BondStretch \<Rightarrow> Vec3 \<Rightarrow> Vec3 \<Rightarrow> Vec3 \<Rightarrow> Vec3 \<Rightarrow> int \<Rightarrow> int
   \<Rightarrow> real \<times> SpatialVec list \<Rightarrow> real \<times> SpatialVec list" where
  "stretchBond globalScale bs a1Station_G a1Pos_G a2Station_G a2Pos_G bodyIndex1 b2 st =
     (case st of (energyCache, forceCache) \<Rightarrow>
        case stretchForce globalScale bs a1Pos_G a2Pos_G of (eStretch, f2) \<Rightarrow>
          let fc1 = forceCache[nat b2 := svadd (forceCache ! nat b2) (cross a2Station_G f2, f2)];
              fc2 = fc1[nat bodyIndex1 :=
                          svsub (fc1 ! nat bodyIndex1) (cross a1Station_G f2, f2)]
          in (energyCache + eStretch, fc2))"

section \<open>Double arithmetic\<close>
















section \<open>The force kernel: periodic torsion\<close>



text \<open>
  \<^verbatim>\<open>BondTorsion::periodic\<close> (lines 3776 to 3845). The output parameter \<^verbatim>\<open>theta\<close> is left
  untouched by the early return, which is \<open>None\<close> here.
\<close>

record TorsionOutput =
  theta :: "real option"
  pe :: real
  rf :: Vec3
  xf :: Vec3
  yf :: Vec3
  sf :: Vec3






section \<open>The force kernel: scaling of bonded atoms\<close>

text \<open>
  Each loop of \<^verbatim>\<open>scaleBondedAtoms\<close> and \<^verbatim>\<open>unscaleBondedAtoms\<close> writes one pair of values
  at the index taken from every entry of one list; \<open>setScales\<close> is that loop, over the
  list of the indices.
\<close>

definition setScales ::
  "real \<Rightarrow> real \<Rightarrow> int list \<Rightarrow> real list \<times> real list \<Rightarrow> real list \<times> real list" where
  "setScales v c ixs st =
     fold (\<lambda>ix st'. case st' of (vdwScale, coulombScale) \<Rightarrow>
             (vdwScale[nat ix := v], coulombScale[nat ix := c])) ixs st"

definition targets13 :: "Atom \<Rightarrow> int list" where
  "targets13 a = map snd (xshortPath13 a)"

definition targets14 :: "Atom \<Rightarrow> int list" where
  "targets14 a = map (\<lambda>t. snd (snd t)) (xshortPath14 a)"

definition targets15 :: "Atom \<Rightarrow> int list" where
  "targets15 a = map (\<lambda>q. snd (snd (snd q))) (xshortPath15 a)"

definition scaleBondedAtoms ::
  "DuMMForceFieldSubsystemRep \<Rightarrow> Atom \<Rightarrow> real list \<times> real list \<Rightarrow> real list \<times> real list" where
  "scaleBondedAtoms mm a st =
     (let st1 = setScales (vdwScale12 mm) (coulombScale12 mm) (xbond12 a) st;
          st2 = setScales (vdwScale13 mm) (coulombScale13 mm) (targets13 a) st1;
          st3 = (if vdwScale14 mm \<noteq> 1 \<or> coulombScale14 mm \<noteq> 1
                 then setScales (vdwScale14 mm) (coulombScale14 mm) (targets14 a) st2 else st2);
          st4 = (if vdwScale15 mm \<noteq> 1 \<or> coulombScale15 mm \<noteq> 1
                 then setScales (vdwScale15 mm) (coulombScale15 mm) (targets15 a) st3 else st3)
      in st4)"

definition unscaleBondedAtoms ::
  "DuMMForceFieldSubsystemRep \<Rightarrow> Atom \<Rightarrow> real list \<times> real list \<Rightarrow> real list \<times> real list" where
  "unscaleBondedAtoms mm a st =
     (let st1 = setScales 1 1 (xbond12 a) st;
          st2 = setScales 1 1 (targets13 a) st1;
          st3 = (if vdwScale14 mm \<noteq> 1 \<or> coulombScale14 mm \<noteq> 1
                 then setScales 1 1 (targets14 a) st2 else st2);
          st4 = (if vdwScale15 mm \<noteq> 1 \<or> coulombScale15 mm \<noteq> 1
                 then setScales 1 1 (targets15 a) st3 else st3)
      in st4)"

section \<open>The force kernel: which interactions are evaluated\<close>

text \<open>
  The loops of \<^verbatim>\<open>realizeSubsystemDynamicsImpl\<close> (lines 3075 to 3341), with each evaluation
  of an energy term recorded as an event instead of being added to the caches. The
  events carry the atom indices in the order in which the positions are handed to the
  numeric routine: \<open>Bend a1 a2 a3\<close> has \<open>a2\<close> as central atom, \<open>ImproperTorsion a2 a3 a1 a4\<close>
  has the focal atom \<open>a1\<close> in the third place.
\<close>

datatype Interaction =
    Stretch int int
  | Bend int int int
  | Torsion int int int int
  | ImproperTorsion int int int int
  | NonBonded int int

definition kernelBonded :: "Atom list \<Rightarrow> int \<Rightarrow> Interaction list" where
  "kernelBonded as a1num =
     (let a1 = atomAt as a1num
      in map (\<lambda>a2num. Stretch a1num a2num) (filter (\<lambda>a2num. \<not> a2num < a1num) (xbond12 a1))
         @ map (\<lambda>p. Bend a1num (fst p) (snd p)) (filter (\<lambda>p. \<not> snd p < a1num) (xbond13 a1))
         @ map (\<lambda>t. case t of (a2num, a3num, a4num) \<Rightarrow> Torsion a1num a2num a3num a4num)
               (filter (\<lambda>t. case t of (a2num, a3num, a4num) \<Rightarrow> \<not> a4num < a1num) (xbond14 a1))
         @ map (\<lambda>t. case t of (a2num, a3num, a4num) \<Rightarrow> ImproperTorsion a2num a3num a1num a4num)
               (aImproperTorsion14 a1))"

definition kernelNonBonded :: "DuMMBody list \<Rightarrow> nat \<Rightarrow> int \<Rightarrow> Interaction list" where
  "kernelNonBonded bodies duMMBodyIndex1 a1num =
     concat (map (\<lambda>duMMBodyIndex2.
                    map (\<lambda>ap. NonBonded a1num (fst ap)) (allAtoms (bodies ! duMMBodyIndex2)))
                 [Suc duMMBodyIndex1 ..< length bodies])"

definition kernelInteractions :: "DuMMForceFieldSubsystemRep \<Rightarrow> Interaction list" where
  "kernelInteractions mm =
     concat (map (\<lambda>duMMBodyIndex1.
               concat (map (\<lambda>ap. kernelBonded (atoms mm) (fst ap)
                                  @ kernelNonBonded (duMMSubsetOfBodies mm) duMMBodyIndex1 (fst ap))
                           (allAtoms (duMMSubsetOfBodies mm ! duMMBodyIndex1))))
            [0 ..< length (duMMSubsetOfBodies mm)])"

section \<open>Notions used in the statements and proofs\<close>

text \<open>
  The targets of the shortest-path lists of an atom: the last atom of each entry.
\<close>

definition shortTargets :: "Atom \<Rightarrow> int list" where
  "shortTargets a =
     map snd (shortPath13 a) @ map (\<lambda>t. snd (snd t)) (shortPath14 a)
     @ map (\<lambda>q. snd (snd (snd q))) (shortPath15 a)"

text \<open>
  What is claimed of the lists of the atom with index \<open>anum\<close>: every shortest-path list
  lies within the all-paths list of the same length, no target occurs twice in the three
  shortest-path lists taken together, and no target is the atom itself or one of its
  direct neighbours.
\<close>

definition shortPathsOk :: "int \<Rightarrow> Atom \<Rightarrow> bool" where
  "shortPathsOk anum a \<longleftrightarrow>
     set (shortPath13 a) \<subseteq> set (bond13 a)
     \<and> set (shortPath14 a) \<subseteq> set (bond14 a)
     \<and> set (shortPath15 a) \<subseteq> set (bond15 a)
     \<and> distinct (shortTargets a)
     \<and> set (shortTargets a) \<inter> insert anum (set (bond12 a)) = {}"

definition allShortPathsOk :: "Atom list \<Rightarrow> bool" where
  "allShortPathsOk as \<longleftrightarrow> (\<forall>i < length as. shortPathsOk (int i) (as ! i))"

definition shortPathsEmpty :: "Atom \<Rightarrow> bool" where
  "shortPathsEmpty a \<longleftrightarrow> shortPath13 a = [] \<and> shortPath14 a = [] \<and> shortPath15 a = []"

definition sameBondLists :: "Atom \<Rightarrow> Atom \<Rightarrow> bool" where
  "sameBondLists a b \<longleftrightarrow>
     bond12 a = bond12 b \<and> bond13 a = bond13 b \<and> bond14 a = bond14 b \<and> bond15 a = bond15 b
     \<and> shortPath13 a = shortPath13 b \<and> shortPath14 a = shortPath14 b
     \<and> shortPath15 a = shortPath15 b"

text \<open>
  The three shortest-path loops share one shape: a neighbour that is not yet in the
  visited set is appended, as the last atom of a new entry, and joins the set.
\<close>

definition visitStep :: "('p \<Rightarrow> int \<Rightarrow> 'q) \<Rightarrow> 'p \<Rightarrow> int \<Rightarrow> 'q list \<times> int set \<Rightarrow> 'q list \<times> int set" where
  "visitStep mk p n st =
     (case st of (l, seen) \<Rightarrow> if n \<notin> seen then (l @ [mk p n], insert n seen) else st)"

definition visitFold ::
  "('p \<Rightarrow> int list) \<Rightarrow> ('p \<Rightarrow> int \<Rightarrow> 'q) \<Rightarrow> 'p list \<Rightarrow> 'q list \<times> int set \<Rightarrow> 'q list \<times> int set" where
  "visitFold nbrs mk ps st = fold (\<lambda>p. fold (visitStep mk p) (nbrs p)) ps st"

definition visitInv ::
  "('q \<Rightarrow> int) \<Rightarrow> ('p \<Rightarrow> int list) \<Rightarrow> ('p \<Rightarrow> int \<Rightarrow> 'q) \<Rightarrow> 'p set \<Rightarrow> int set
   \<Rightarrow> 'q list \<times> int set \<Rightarrow> bool" where
  "visitInv tg nbrs mk P seenI st \<longleftrightarrow>
     (case st of (l, seen) \<Rightarrow>
        distinct (map tg l) \<and> seen = seenI \<union> tg ` set l \<and> tg ` set l \<inter> seenI = {}
        \<and> (\<forall>q \<in> set l. \<exists>p \<in> P. \<exists>n \<in> set (nbrs p). q = mk p n))"

text \<open>The indices written by the scale pass and by the unscale pass.\<close>

definition scaledIndices :: "DuMMForceFieldSubsystemRep \<Rightarrow> Atom \<Rightarrow> nat set" where
  "scaledIndices mm a =
     nat ` (set (xbond12 a) \<union> set (targets13 a)
            \<union> (if vdwScale14 mm \<noteq> 1 \<or> coulombScale14 mm \<noteq> 1 then set (targets14 a) else {})
            \<union> (if vdwScale15 mm \<noteq> 1 \<or> coulombScale15 mm \<noteq> 1 then set (targets15 a) else {}))"

text \<open>
  What the kernel's bookkeeping relies on. \<^verbatim>\<open>addBond\<close> (lines 2383 to 2416) accepts a bond
  only between two different valid atoms that are not yet bonded, and records it in the
  1-2 list of both atoms: \<open>bondGraphOk\<close>. Every atom is attached to exactly one body, so
  the atom lists of the bodies together hold every atom index once:
  \<open>bodiesPartitionAtoms\<close>. \<open>focalAtoms\<close> lists the atoms in the order in which the kernel
  makes them the focal atom, \<open>bodyAtoms\<close> the atoms of one body.
\<close>

definition focalAtoms :: "DuMMBody list \<Rightarrow> int list" where
  "focalAtoms bodies = concat (map (\<lambda>b. map fst (allAtoms b)) bodies)"

definition bodyAtoms :: "DuMMBody list \<Rightarrow> nat \<Rightarrow> int list" where
  "bodyAtoms bodies i = map fst (allAtoms (bodies ! i))"

definition bondGraphOk :: "Atom list \<Rightarrow> bool" where
  "bondGraphOk as \<longleftrightarrow>
     (\<forall>i < length as.
        distinct (bond12 (as ! i))
        \<and> (\<forall>b \<in> set (bond12 (as ! i)).
              0 \<le> b \<and> b < int (length as) \<and> b \<noteq> int i \<and> int i \<in> set (bond12 (as ! nat b))))"

definition bodiesPartitionAtoms :: "DuMMForceFieldSubsystemRep \<Rightarrow> bool" where
  "bodiesPartitionAtoms mm \<longleftrightarrow>
     distinct (focalAtoms (duMMSubsetOfBodies mm))
     \<and> set (focalAtoms (duMMSubsetOfBodies mm)) = {0 ..< int (length (atoms mm))}"

text \<open>
  The content of the atom store during the loop over the atoms, in terms of the bond
  graph \<open>N\<close> (the set of 1-2 neighbours of each atom) and of the body \<open>B\<close> of each atom:
  \<open>storeInv\<close> holds of the store throughout, \<open>crossListsOk\<close> of an atom once the loop has
  visited it, and \<open>sameCross\<close> relates two atoms that agree on the lists involved.
\<close>

definition storeInv :: "(nat \<Rightarrow> int set) \<Rightarrow> (nat \<Rightarrow> int) \<Rightarrow> nat \<Rightarrow> Atom list \<Rightarrow> bool" where
  "storeInv N B n as \<longleftrightarrow>
     length as = n
     \<and> (\<forall>i < n. set (bond12 (as ! i)) = N i \<and> distinct (bond12 (as ! i)) \<and> bodyIx (as ! i) = B i)"

definition graphOk :: "(nat \<Rightarrow> int set) \<Rightarrow> nat \<Rightarrow> bool" where
  "graphOk N n \<longleftrightarrow>
     (\<forall>i < n. \<forall>b \<in> N i. 0 \<le> b \<and> b < int n \<and> b \<noteq> int i \<and> int i \<in> N (nat b))"

definition crossListsOk :: "(nat \<Rightarrow> int set) \<Rightarrow> (nat \<Rightarrow> int) \<Rightarrow> nat \<Rightarrow> Atom \<Rightarrow> bool" where
  "crossListsOk N B i a \<longleftrightarrow>
     distinct (xbond12 a) \<and> distinct (xbond13 a) \<and> distinct (xbond14 a)
     \<and> set (xbond12 a) = {b \<in> N i. B (nat b) \<noteq> B i}
     \<and> set (xbond13 a)
         = {(b, c). b \<in> N i \<and> c \<in> N (nat b) \<and> c \<noteq> int i
                    \<and> (B (nat b) \<noteq> B i \<or> B (nat c) \<noteq> B i)}
     \<and> set (xbond14 a)
         = {(b, c, d). b \<in> N i \<and> c \<in> N (nat b) \<and> c \<noteq> int i
                       \<and> d \<in> N (nat c) \<and> d \<noteq> int i \<and> d \<noteq> b
                       \<and> (B (nat b) \<noteq> B i \<or> B (nat c) \<noteq> B i \<or> B (nat d) \<noteq> B i)}"

definition sameCross :: "Atom \<Rightarrow> Atom \<Rightarrow> bool" where
  "sameCross a b \<longleftrightarrow>
     bond12 a = bond12 b \<and> bodyIx a = bodyIx b \<and> xbond12 a = xbond12 b
     \<and> xbond13 a = xbond13 b \<and> xbond14 a = xbond14 b"

section \<open>Concrete systems\<close>

text \<open>
  The state built by the constructor of \<^verbatim>\<open>DuMMForceFieldSubsystemRep\<close>, as far as it is
  modelled, and small force fields and molecules on top of it.
\<close>

definition newRep :: DuMMForceFieldSubsystemRep where
  "newRep =
     \<lparr>atoms = [], duMMSubsetOfBodies = [], atomClasses = [], chargedAtomTypes = [],
      bondStretch = Map.empty, bondBend = Map.empty, bondTorsion = Map.empty,
      amberImproperTorsion = Map.empty,
      vdwMixingRule = WaldmanHagler,
      vdwScale12 = 0, coulombScale12 = 0, vdwScale13 = 0, coulombScale13 = 0,
      vdwScale14 = 1, coulombScale14 = 1, vdwScale15 = 1, coulombScale15 = 1,
      bondStretchGlobalScaleFactor = 1,
      topologyCacheValid = False\<rparr>"

definition exClass :: "int \<Rightarrow> AtomClass" where
  "exClass i = \<lparr>atomClassIx = i, element = 6, valence = 4, vdwRadius = None, vdwWellDepth = None\<rparr>"

definition exType :: "int \<Rightarrow> int \<Rightarrow> ChargedAtomType" where
  "exType i c = \<lparr>typeIndex = i, typeAtomClassIx = c, partialCharge = None\<rparr>"

definition newAtom :: "int \<Rightarrow> int \<Rightarrow> int list \<Rightarrow> Atom" where
  "newAtom t aIx b12 =
     \<lparr>atomIndex = aIx, chargedAtomTypeIndex = t, bond12 = b12, bodyIx = InvalidIndex,
      station_B = vzero,
      bond13 = [], bond14 = [], bond15 = [],
      shortPath13 = [], shortPath14 = [], shortPath15 = [],
      bonds3Atoms = invalidTriple,
      xbond12 = [], xbond13 = [], xbond14 = [], xbond15 = [],
      xshortPath13 = [], xshortPath14 = [], xshortPath15 = [],
      xbonds3Atoms = invalidTriple,
      aImproperTorsion14 = [], aImproperTorsion = [],
      stretch = [], bend = [], torsion = []\<rparr>"

definition exStretch :: "IndexPair \<Rightarrow> BondStretch" where
  "exStretch key = \<lparr>stretchClasses = key, stretchK = 500, stretchD0 = 1\<rparr>"
definition exBend :: "IndexTriple \<Rightarrow> BondBend" where
  "exBend key = \<lparr>bendClasses = key, bendK = 100, bendTheta0 = 0\<rparr>"
definition exTorsion :: "IndexQuad \<Rightarrow> BondTorsion" where
  "exTorsion key = addTerm (mkTorsionTerm 2 10 180) (mkBondTorsion key)"

definition starRep :: DuMMForceFieldSubsystemRep where
  "starRep = newRep
     \<lparr>atoms := [newAtom 0 0 [1, 2, 3], newAtom 1 1 [0], newAtom 2 2 [0], newAtom 3 3 [0]],
      duMMSubsetOfBodies :=
        [\<lparr>clusterIndex = 1, mobilizedBodyIndex = 1, allAtoms = [(0, vzero)]\<rparr>,
         \<lparr>clusterIndex = 2, mobilizedBodyIndex = 2, allAtoms = [(1, vzero), (2, vzero), (3, vzero)]\<rparr>],
      atomClasses := [exClass 0, exClass 1, exClass 2, exClass 3],
      chargedAtomTypes := [exType 0 0, exType 1 1, exType 2 2, exType 3 3],
      bondStretch := [(0, 1) \<mapsto> exStretch (0, 1), (0, 2) \<mapsto> exStretch (0, 2), (0, 3) \<mapsto> exStretch (0, 3)],
      bondBend := [(1, 0, 2) \<mapsto> exBend (1, 0, 2), (1, 0, 3) \<mapsto> exBend (1, 0, 3), (2, 0, 3) \<mapsto> exBend (2, 0, 3)],
      amberImproperTorsion := [(2, 1, 0, 3) \<mapsto> exTorsion (2, 1, 0, 3)]\<rparr>"

definition gapRep :: DuMMForceFieldSubsystemRep where
  "gapRep = newRep\<lparr>atomClasses := [exClass 0, defaultAtomClass, exClass 2],
                    chargedAtomTypes := [exType 0 0, defaultChargedAtomType, exType 2 2]\<rparr>"

definition fourClassRep :: DuMMForceFieldSubsystemRep where
  "fourClassRep = newRep\<lparr>atomClasses := [exClass 0, exClass 1, exClass 2, exClass 3]\<rparr>"

definition improperOnce :: "DuMMForceFieldSubsystemRep \<Rightarrow> error option \<times> DuMMForceFieldSubsystemRep" where
  "improperOnce = defineAmberImproperTorsion 0 1 2 3 2 10 180 (-1) 0 0 (-1) 0 0"

definition torsionOnce :: "DuMMForceFieldSubsystemRep \<Rightarrow> error option \<times> DuMMForceFieldSubsystemRep" where
  "torsionOnce = defineBondTorsion 0 1 2 3 2 10 180 (-1) 0 0 (-1) 0 0"

text \<open>
  A chain of three atoms 0 - 1 - 2, each on a body of its own, with the stretch and bend
  parameters the chain needs; \<open>chainBodied\<close> is its atom store after the bodies have been
  assigned, \<open>chainRealized\<close> the subsystem after topology realization.
\<close>

definition chainRep :: DuMMForceFieldSubsystemRep where
  "chainRep = newRep
     \<lparr>atoms := [newAtom 0 0 [1], newAtom 1 1 [0, 2], newAtom 2 2 [1]],
      duMMSubsetOfBodies :=
        [\<lparr>clusterIndex = 1, mobilizedBodyIndex = 1, allAtoms = [(0, vzero)]\<rparr>,
         \<lparr>clusterIndex = 2, mobilizedBodyIndex = 2, allAtoms = [(1, vzero)]\<rparr>,
         \<lparr>clusterIndex = 3, mobilizedBodyIndex = 3, allAtoms = [(2, vzero)]\<rparr>],
      atomClasses := [exClass 0, exClass 1, exClass 2],
      chargedAtomTypes := [exType 0 0, exType 1 1, exType 2 2],
      bondStretch := [(0, 1) \<mapsto> exStretch (0, 1), (1, 2) \<mapsto> exStretch (1, 2)],
      bondBend := [(0, 1, 2) \<mapsto> exBend (0, 1, 2)]\<rparr>"

definition chainBodied :: "Atom list" where
  "chainBodied = [(newAtom 0 0 [1])\<lparr>bodyIx := 1\<rparr>, (newAtom 1 1 [0, 2])\<lparr>bodyIx := 2\<rparr>,
                  (newAtom 2 2 [1])\<lparr>bodyIx := 3\<rparr>]"

definition chainAtom0 :: Atom where
  "chainAtom0 = (newAtom 0 0 [1])
     \<lparr>bodyIx := 1, bond13 := [(1, 2)], shortPath13 := [(1, 2)],
      xbond12 := [1], xbond13 := [(1, 2)], xshortPath13 := [(1, 2)],
      stretch := [exStretch (0, 1)], bend := [exBend (0, 1, 2)]\<rparr>"

definition chainAtom1 :: Atom where
  "chainAtom1 = (newAtom 1 1 [0, 2])
     \<lparr>bodyIx := 2, xbond12 := [0, 2], stretch := [exStretch (0, 1), exStretch (1, 2)]\<rparr>"

definition chainAtom2 :: Atom where
  "chainAtom2 = (newAtom 2 2 [1])
     \<lparr>bodyIx := 3, bond13 := [(1, 0)], shortPath13 := [(1, 0)],
      xbond12 := [1], xbond13 := [(1, 0)], xshortPath13 := [(1, 0)],
      stretch := [exStretch (1, 2)], bend := [exBend (0, 1, 2)]\<rparr>"

definition chainRealized :: DuMMForceFieldSubsystemRep where
  "chainRealized = chainRep\<lparr>atoms := [chainAtom0, chainAtom1, chainAtom2]\<rparr>"

text \<open>
  A force field on which both a normal torsion and an Amber improper torsion have been
  defined for the class quad \<open>(0, 1, 2, 3)\<close>.
\<close>

definition bothOnce :: DuMMForceFieldSubsystemRep where
  "bothOnce = snd (improperOnce (snd (torsionOnce fourClassRep)))"




section \<open>Canonical class quads\<close>

text \<open>
  Claim C4. For every class quad \<open>(c1, c2, c3, c4)\<close> the canonicalization of a normal
  torsion key reverses the whole quad exactly when the outer endpoints are out of order,
  or are equal and the middle pair is out of order. Hence the reversed quad has the same
  canonical key, and \<^verbatim>\<open>getBondTorsion\<close> returns the same entry for both orderings.
\<close>

theorem canonicalize_reversed_lookup:
  "canonicalizeQuad (c1, c2, c3, c4) =
     (if c1 > c4 \<or> (c1 = c4 \<and> c2 > c3) then (c4, c3, c2, c1) else (c1, c2, c3, c4))
   \<and> mkIndexQuad c4 c3 c2 c1 True = mkIndexQuad c1 c2 c3 c4 True
   \<and> getBondTorsion mm c4 c3 c2 c1 = getBondTorsion mm c1 c2 c3 c4"
  by (auto simp: mkIndexQuad_def getBondTorsion_def)

section \<open>Symmetry of the combining rules\<close>

lemma geometricMean_commute: "geometricMean a b = geometricMean b a"
  by (simp add: geometricMean_def mult.commute)

lemma arithmeticMean_commute: "arithmeticMean a b = arithmeticMean b a"
  by (simp add: arithmeticMean_def add.commute)

lemma harmonicMean_commute: "harmonicMean a b = harmonicMean b a"
  by (simp add: harmonicMean_def add.commute mult.commute mult.left_commute)

lemma cubicMean_commute: "cubicMean a b = cubicMean b a"
  by (simp add: cubicMean_def add.commute)

lemma hhgMean_commute: "hhgMean a b = hhgMean b a"
  by (simp add: hhgMean_def harmonicMean_commute [of a b] geometricMean_commute [of a b])

lemma WaldmanHagler_commute:
  "vdwCombineWaldmanHagler ri rj ei ej = vdwCombineWaldmanHagler rj ri ej ei"
  by (simp add: vdwCombineWaldmanHagler_def Let_def
        geometricMean_commute [of "ei * (ri * ri * ri * (ri * ri * ri))"]
        arithmeticMean_commute [of "ri * ri * ri * (ri * ri * ri)"])

lemma Kong_commute: "vdwCombineKong ri rj ei ej = vdwCombineKong rj ri ej ei"
  by (simp add: vdwCombineKong_def Let_def
        geometricMean_commute [of "ei * (ri * ri * ri * (ri * ri * ri))"]
        arithmeticMean_commute
          [of "(ei * (ri * ri * ri * (ri * ri * ri) * (ri * ri * ri * (ri * ri * ri)))) powr oo13"])

text \<open>
  Claim C8. For each of the five combining rules and all radii and well depths,
  \<^verbatim>\<open>applyMixingRule\<close> gives the same \<open>(dmin, emin)\<close> when the two classes are exchanged,
  and the \<open>dmin\<close> it returns is twice the radius delivered by the combining function of
  the rule.
\<close>

theorem applyMixingRule_symmetric:
  "applyMixingRule rule ri rj ei ej = applyMixingRule rule rj ri ej ei
   \<and> fst (applyMixingRule WaldmanHagler ri rj ei ej)
       = 2 * fst (vdwCombineWaldmanHagler ri rj ei ej)
   \<and> fst (applyMixingRule HalgrenHHG ri rj ei ej) = 2 * fst (vdwCombineHalgrenHHG ri rj ei ej)
   \<and> fst (applyMixingRule Jorgensen ri rj ei ej) = 2 * fst (vdwCombineJorgensen ri rj ei ej)
   \<and> fst (applyMixingRule LorentzBerthelot ri rj ei ej)
       = 2 * fst (vdwCombineLorentzBerthelot ri rj ei ej)
   \<and> fst (applyMixingRule Kong ri rj ei ej) = 2 * fst (vdwCombineKong ri rj ei ej)"
proof -
  have sym: "applyMixingRule rule ri rj ei ej = applyMixingRule rule rj ri ej ei"
    by (cases rule)
       (simp_all add: applyMixingRule_def WaldmanHagler_commute [of ri rj] Kong_commute [of ri rj]
          vdwCombineHalgrenHHG_def vdwCombineJorgensen_def vdwCombineLorentzBerthelot_def
          cubicMean_commute [of ri rj] hhgMean_commute [of ei ej]
          geometricMean_commute [of ri rj] geometricMean_commute [of ei ej]
          arithmeticMean_commute [of ri rj])
  show ?thesis using sym by (simp add: applyMixingRule_def split: prod.split)
qed

section \<open>Registry setters on an undefined slot\<close>

text \<open>
  Claim C9 says that \<^verbatim>\<open>setAtomClassVdwParameters\<close> and \<^verbatim>\<open>setChargedAtomTypeCharge\<close> fail
  and leave the registry unchanged when the index names no defined entry. In \<open>gapRep\<close>
  slot 1 of both registries lies inside the vector and has never been defined. Both
  methods return normally there, and both have written into the slot.
\<close>

theorem setters_accept_undefined_slot:
  "\<not> isValidAtomClass gapRep 1
   \<and> fst (setAtomClassVdwParameters 1 0.2 0.1 gapRep) = None
   \<and> atomClasses (snd (setAtomClassVdwParameters 1 0.2 0.1 gapRep)) \<noteq> atomClasses gapRep
   \<and> \<not> isValidChargedAtomType gapRep 1
   \<and> fst (setChargedAtomTypeCharge 1 0.5 gapRep) = None
   \<and> chargedAtomTypes (snd (setChargedAtomTypeCharge 1 0.5 gapRep)) \<noteq> chargedAtomTypes gapRep"
  by (simp add: isValidAtomClass_def isValidChargedAtomType_def gapRep_def newRep_def
        defaultAtomClass_def defaultChargedAtomType_def AtomClass_isValid_def
        ChargedAtomType_isValid_def InvalidIndex_def setAtomClassVdwParameters_def
        setChargedAtomTypeCharge_def invalidateSubsystemTopologyCache_def Let_def
        exClass_def exType_def)

section \<open>Defining the same torsion twice\<close>

text \<open>
  Claim C3 says that a second definition with the same terms is accepted by both
  \<^verbatim>\<open>defineBondTorsion\<close> and \<^verbatim>\<open>defineAmberImproperTorsion\<close>. On a force field with four
  atom classes, the same one-term improper torsion is defined twice: the first call
  returns normally and the second throws, whereas the same two calls of
  \<^verbatim>\<open>defineBondTorsion\<close> both return normally.
\<close>

theorem improper_identical_redefinition_fails:
  "fst (improperOnce fourClassRep) = None
   \<and> fst (improperOnce (snd (improperOnce fourClassRep))) = Some APIArgcheckFailed
   \<and> fst (torsionOnce fourClassRep) = None
   \<and> fst (torsionOnce (snd (torsionOnce fourClassRep))) = None"
  by (simp add: improperOnce_def torsionOnce_def defineAmberImproperTorsion_def defineBondTorsion_def
       checkTorsion_def checkTerm_def isValidAtomClass_def fourClassRep_def newRep_def
       invalidateSubsystemTopologyCache_def exClass_def AtomClass_isValid_def Let_def
       mkIndexQuad_def buildTorsion_def mkBondTorsion_def addTerm_def mkTorsionTerm_def
       BondTorsion_eq_def hasTerm_def termAgrees_def)

text \<open>
  \<^verbatim>\<open>BondTorsion::operator==\<close> compares the term lists as sets, provided no periodicity
  occurs twice in either list. \<^verbatim>\<open>checkTorsion\<close> makes sure of that for the torsion being
  defined, and hence for every entry of the table.
\<close>

lemma buildTorsion_distinct:
  assumes "checkTorsion mm c1 c2 c3 c4 p1 a1 ph1 p2 a2 ph2 p3 a3 ph3"
  shows "distinct (map periodicity (terms (buildTorsion key p1 a1 ph1 p2 a2 ph2 p3 a3 ph3)))"
  using assms
  by (auto simp: checkTorsion_def buildTorsion_def Let_def addTerm_def mkBondTorsion_def
        mkTorsionTerm_def split: if_splits)

lemma BondTorsion_eq_iff_same_terms:
  assumes d1: "distinct (map periodicity (terms old))"
      and d2: "distinct (map periodicity (terms bt))"
  shows "BondTorsion_eq old bt \<longleftrightarrow> set (terms old) = set (terms bt)"
proof
  assume eq: "BondTorsion_eq old bt"
  then have len: "length (terms old) = length (terms bt)"
    by (simp add: BondTorsion_eq_def split: if_splits)
  have sub: "set (terms old) \<subseteq> set (terms bt)"
  proof
    fix my assume my: "my \<in> set (terms old)"
    from eq my len have h: "hasTerm bt (periodicity my)"
      and ag: "\<forall>other \<in> set (terms bt). termAgrees my other"
      by (auto simp: BondTorsion_eq_def list_all_iff)
    from h obtain other where o: "other \<in> set (terms bt)" "periodicity other = periodicity my"
      by (auto simp: hasTerm_def list_ex_iff)
    with ag have "amplitude my = amplitude other" "theta0 my = theta0 other"
      by (auto simp: termAgrees_def)
    with o(2) have "my = other" by simp
    with o(1) show "my \<in> set (terms bt)" by simp
  qed
  have "distinct (terms old)" "distinct (terms bt)"
    using d1 d2 by (simp_all add: distinct_map)
  then have "card (set (terms old)) = card (set (terms bt))"
    using len by (simp add: distinct_card)
  with sub show "set (terms old) = set (terms bt)"
    by (simp add: card_subset_eq)
next
  assume s: "set (terms old) = set (terms bt)"
  have dd: "distinct (terms old)" "distinct (terms bt)"
    using d1 d2 by (simp_all add: distinct_map)
  then have len: "length (terms old) = length (terms bt)"
    using s by (metis distinct_card)
  have "hasTerm bt (periodicity my) \<and> list_all (termAgrees my) (terms bt)"
    if my: "my \<in> set (terms old)" for my
  proof
    show "hasTerm bt (periodicity my)" using my s by (auto simp: hasTerm_def list_ex_iff)
    have "termAgrees my other" if o: "other \<in> set (terms bt)" for other
    proof (cases "periodicity other = periodicity my")
      case True
      have "my \<in> set (terms bt)" using my s by simp
      with o True d2 have "other = my" by (meson distinct_map inj_onD)
      then show ?thesis by (simp add: termAgrees_def)
    next
      case False
      then show ?thesis by (simp add: termAgrees_def)
    qed
    then show "list_all (termAgrees my) (terms bt)" by (simp add: list_all_iff)
  qed
  then show "BondTorsion_eq old bt" using len by (simp add: BondTorsion_eq_def list_all_iff)
qed

text \<open>
  Claim C3, amended. Let the arguments pass \<^verbatim>\<open>checkTorsion\<close>. When the canonicalized class
  quad already has an entry in the table of normal torsions, \<^verbatim>\<open>defineBondTorsion\<close> returns
  normally if the entry has exactly the same set of terms as the torsion being defined,
  and throws otherwise. When the class quad, taken as it is, already has an entry in
  the table of improper torsions, \<^verbatim>\<open>defineAmberImproperTorsion\<close> throws, whether the terms
  are the same or not. In each of these cases the subsystem is left as it was but for the
  invalidated topology cache, so neither table has changed.
\<close>

theorem torsion_redefinition:
  assumes chk: "checkTorsion mm class1 class2 class3 class4 p1 amp1 phase1 p2 amp2 phase2 p3 amp3 phase3"
  shows "(\<forall>old. bondTorsion mm (mkIndexQuad class1 class2 class3 class4 True) = Some old
               \<and> distinct (map periodicity (terms old)) \<longrightarrow>
            defineBondTorsion class1 class2 class3 class4
                p1 amp1 phase1 p2 amp2 phase2 p3 amp3 phase3 mm
            = (if set (terms old)
                    = set (terms (buildTorsion (mkIndexQuad class1 class2 class3 class4 True)
                                     p1 amp1 phase1 p2 amp2 phase2 p3 amp3 phase3))
               then None else Some APIArgcheckFailed,
               invalidateSubsystemTopologyCache mm))
       \<and> (\<forall>old. amberImproperTorsion mm (mkIndexQuad class1 class2 class3 class4 False) = Some old
             \<longrightarrow>
            defineAmberImproperTorsion class1 class2 class3 class4
                p1 amp1 phase1 p2 amp2 phase2 p3 amp3 phase3 mm
            = (Some APIArgcheckFailed, invalidateSubsystemTopologyCache mm))
       \<and> bondTorsion (invalidateSubsystemTopologyCache mm) = bondTorsion mm
       \<and> amberImproperTorsion (invalidateSubsystemTopologyCache mm) = amberImproperTorsion mm"
proof -
  let ?mm = "invalidateSubsystemTopologyCache mm"
  have chk': "checkTorsion ?mm class1 class2 class3 class4
                p1 amp1 phase1 p2 amp2 phase2 p3 amp3 phase3"
    using chk by (simp add: checkTorsion_def isValidAtomClass_def invalidateSubsystemTopologyCache_def)
  have tabs: "bondTorsion ?mm = bondTorsion mm" "amberImproperTorsion ?mm = amberImproperTorsion mm"
    by (simp_all add: invalidateSubsystemTopologyCache_def)
  have d: "distinct (map periodicity (terms (buildTorsion key
             p1 amp1 phase1 p2 amp2 phase2 p3 amp3 phase3)))" for key
    using chk by (rule buildTorsion_distinct)
  have normal: "defineBondTorsion class1 class2 class3 class4
                  p1 amp1 phase1 p2 amp2 phase2 p3 amp3 phase3 mm
            = (if set (terms old)
                    = set (terms (buildTorsion (mkIndexQuad class1 class2 class3 class4 True)
                                     p1 amp1 phase1 p2 amp2 phase2 p3 amp3 phase3))
               then None else Some APIArgcheckFailed, ?mm)"
    if "bondTorsion mm (mkIndexQuad class1 class2 class3 class4 True) = Some old"
       "distinct (map periodicity (terms old))" for old
    using that chk' BondTorsion_eq_iff_same_terms [OF that(2) d]
    by (simp add: defineBondTorsion_def Let_def tabs)
  have improper: "defineAmberImproperTorsion class1 class2 class3 class4
                p1 amp1 phase1 p2 amp2 phase2 p3 amp3 phase3 mm
            = (Some APIArgcheckFailed, ?mm)"
    if "amberImproperTorsion mm (mkIndexQuad class1 class2 class3 class4 False) = Some old" for old
    using that chk' by (simp add: defineAmberImproperTorsion_def Let_def tabs)
  show ?thesis using normal improper tabs by simp
qed

lemma bothOnce_tables:
  "atomClasses bothOnce = [exClass 0, exClass 1, exClass 2, exClass 3]"
  "bondTorsion bothOnce (0, 1, 2, 3) = Some (exTorsion (0, 1, 2, 3))"
  "amberImproperTorsion bothOnce (0, 1, 2, 3) = Some (exTorsion (0, 1, 2, 3))"
  by (simp_all add: bothOnce_def improperOnce_def torsionOnce_def defineAmberImproperTorsion_def
       defineBondTorsion_def checkTorsion_def checkTerm_def isValidAtomClass_def fourClassRep_def
       newRep_def invalidateSubsystemTopologyCache_def exClass_def AtomClass_isValid_def Let_def
       mkIndexQuad_def buildTorsion_def exTorsion_def)

lemma bothOnce_check:
  "checkTorsion bothOnce 0 1 2 3 2 amp 180 (- 1) 0 0 (- 1) 0 0 \<longleftrightarrow> 0 \<le> amp"
  by (simp add: checkTorsion_def checkTerm_def isValidAtomClass_def bothOnce_tables exClass_def
        AtomClass_isValid_def)

theorem torsion_redefinition_witness:
  "torsionOnce bothOnce = (None, invalidateSubsystemTopologyCache bothOnce)
   \<and> defineBondTorsion 0 1 2 3 2 11 180 (- 1) 0 0 (- 1) 0 0 bothOnce
       = (Some APIArgcheckFailed, invalidateSubsystemTopologyCache bothOnce)
   \<and> improperOnce bothOnce = (Some APIArgcheckFailed, invalidateSubsystemTopologyCache bothOnce)
   \<and> bondTorsion (invalidateSubsystemTopologyCache bothOnce) = bondTorsion bothOnce
   \<and> amberImproperTorsion (invalidateSubsystemTopologyCache bothOnce)
       = amberImproperTorsion bothOnce"
proof -
  have c10: "checkTorsion bothOnce 0 1 2 3 2 10 180 (- 1) 0 0 (- 1) 0 0"
    and c11: "checkTorsion bothOnce 0 1 2 3 2 11 180 (- 1) 0 0 (- 1) 0 0"
    by (simp_all add: bothOnce_check)
  have key: "mkIndexQuad 0 1 2 3 True = (0, 1, 2, 3)" "mkIndexQuad 0 1 2 3 False = (0, 1, 2, 3)"
    by (simp_all add: mkIndexQuad_def)
  have old: "distinct (map periodicity (terms (exTorsion (0, 1, 2, 3))))"
    by (simp add: exTorsion_def addTerm_def mkBondTorsion_def mkTorsionTerm_def)
  have same: "set (terms (exTorsion (0, 1, 2, 3)))
              = set (terms (buildTorsion (0, 1, 2, 3) 2 10 180 (- 1) 0 0 (- 1) 0 0))"
    by (simp add: exTorsion_def buildTorsion_def)
  have differ: "set (terms (exTorsion (0, 1, 2, 3)))
              \<noteq> set (terms (buildTorsion (0, 1, 2, 3) 2 11 180 (- 1) 0 0 (- 1) 0 0))"
    by (simp add: exTorsion_def buildTorsion_def addTerm_def mkBondTorsion_def mkTorsionTerm_def)
  note t10 = torsion_redefinition [OF c10]
  note t11 = torsion_redefinition [OF c11]
  have 1: "torsionOnce bothOnce = (None, invalidateSubsystemTopologyCache bothOnce)"
    using t10 [THEN conjunct1, rule_format, of "exTorsion (0, 1, 2, 3)"] old same
    by (simp add: key bothOnce_tables torsionOnce_def)
  have 2: "defineBondTorsion 0 1 2 3 2 11 180 (- 1) 0 0 (- 1) 0 0 bothOnce
           = (Some APIArgcheckFailed, invalidateSubsystemTopologyCache bothOnce)"
    using t11 [THEN conjunct1, rule_format, of "exTorsion (0, 1, 2, 3)"] old differ
    by (simp add: key bothOnce_tables)
  have 3: "improperOnce bothOnce
           = (Some APIArgcheckFailed, invalidateSubsystemTopologyCache bothOnce)"
    using t10 [THEN conjunct2, THEN conjunct1, rule_format, of "exTorsion (0, 1, 2, 3)"]
    by (simp add: key bothOnce_tables improperOnce_def)
  show ?thesis using 1 2 3 t10 by simp
qed

section \<open>The improper torsions of an atom\<close>

lemma improperOrderings_eq:
  "improperOrderings = [(0, 1, 2), (0, 2, 1), (1, 0, 2), (1, 2, 0), (2, 0, 1), (2, 1, 0)]"
  by (simp add: improperOrderings_def)

text \<open>
  Claim C1 says that every ordering is looked up afresh and that exactly the orderings
  with a matching entry are recorded. In \<open>starRep\<close> atom 0 (class 0) is bonded to atoms
  1, 2 and 3 (classes 1, 2, 3) on another body, and the improper torsion table has one
  entry, for the class quad \<open>(2, 1, 0, 3)\<close>, the third ordering. Looked up afresh, that
  ordering alone matches. The loop of the source looks up the first ordering
  \<open>(1, 2, 0, 3)\<close>, finds nothing, keeps the invalid result in its local static and records
  no entry at all.
\<close>

theorem improper_static_lookup_records_nothing:
  "improperMatches_spec starRep 0 (1, 2, 3) = [((2, 1, 3), exTorsion (2, 1, 0, 3))]
   \<and> fold (improperStep starRep 0 (1, 2, 3)) improperOrderings (None, [], [])
       = (Some dummyBondTorsion, [], [])"
  by (simp add: improperMatches_spec_def improperOrderings_eq improperStep_def
        improperQuadLookup_def getAmberImproperTorsion_def getAtomClassIndex_def mkIndexQuad_def
        starRep_def newRep_def newAtom_def exClass_def exType_def exStretch_def exBend_def
        exTorsion_def dummyBondTorsion_def mkBondTorsion_def addTerm_def BondTorsion_isValid_def)

section \<open>Shortest-path lists\<close>

lemma visitStep_inv:
  assumes tg: "\<And>p n. tg (mk p n) = n"
      and p: "p \<in> P" and n: "n \<in> set (nbrs p)"
      and inv: "visitInv tg nbrs mk P seenI st"
  shows "visitInv tg nbrs mk P seenI (visitStep mk p n st)"
proof -
  obtain l seen where st: "st = (l, seen)" by (cases st)
  show ?thesis
  proof (cases "n \<in> seen")
    case True
    then show ?thesis using inv by (simp add: st visitStep_def)
  next
    case False
    have d: "distinct (map tg l)" and s: "seen = seenI \<union> tg ` set l"
      and dj: "tg ` set l \<inter> seenI = {}"
      and ex: "\<forall>q \<in> set l. \<exists>p \<in> P. \<exists>n \<in> set (nbrs p). q = mk p n"
      using inv by (simp_all add: st visitInv_def)
    have n1: "n \<notin> tg ` set l" and n0: "n \<notin> seenI" using False s by auto
    have "distinct (map tg (l @ [mk p n]))" using d n1 by (simp add: tg)
    moreover have "insert n seen = seenI \<union> tg ` set (l @ [mk p n])" using s by (auto simp: tg)
    moreover have "tg ` set (l @ [mk p n]) \<inter> seenI = {}" using dj n0 by (auto simp: tg)
    moreover have "\<forall>q \<in> set (l @ [mk p n]). \<exists>p \<in> P. \<exists>n \<in> set (nbrs p). q = mk p n"
      using ex p n by auto
    ultimately show ?thesis using False by (simp add: st visitStep_def visitInv_def)
  qed
qed

lemma visitInner_inv:
  assumes tg: "\<And>p n. tg (mk p n) = n"
      and p: "p \<in> P" and sub: "set ns \<subseteq> set (nbrs p)"
      and inv: "visitInv tg nbrs mk P seenI st"
  shows "visitInv tg nbrs mk P seenI (fold (visitStep mk p) ns st)"
  using sub inv
proof (induction ns arbitrary: st)
  case Nil
  then show ?case by simp
next
  case (Cons n ns)
  have "visitInv tg nbrs mk P seenI (visitStep mk p n st)"
    using Cons.prems tg p
    by (intro visitStep_inv [where tg = tg and mk = mk and P = P and nbrs = nbrs]) auto
  then show ?case using Cons.IH Cons.prems by simp
qed

lemma visitFold_inv:
  assumes tg: "\<And>p n. tg (mk p n) = n"
      and sub: "set ps \<subseteq> P"
      and inv: "visitInv tg nbrs mk P seenI st"
  shows "visitInv tg nbrs mk P seenI (visitFold nbrs mk ps st)"
  using sub inv
proof (induction ps arbitrary: st)
  case Nil
  then show ?case by (simp add: visitFold_def)
next
  case (Cons p ps)
  have "visitInv tg nbrs mk P seenI (fold (visitStep mk p) (nbrs p) st)"
    using Cons.prems tg
    by (intro visitInner_inv [where tg = tg and mk = mk and P = P and nbrs = nbrs]) auto
  then show ?case using Cons.IH [of "fold (visitStep mk p) (nbrs p) st"] Cons.prems
    by (simp add: visitFold_def)
qed

lemma visitInv_init: "visitInv tg nbrs mk P seenI ([], seenI)"
  by (simp add: visitInv_def)

text \<open>The 1-3 loops: the all-paths component and the shortest-path component.\<close>

lemma step13_inner:
  "anum \<in> seen \<Longrightarrow>
   fold (step13 anum b) ns (b13, sp13, seen)
   = (b13 @ map (Pair b) (filter (\<lambda>n. n \<noteq> anum) ns),
      fold (visitStep Pair b) ns (sp13, seen))"
proof (induction ns arbitrary: b13 sp13 seen)
  case Nil
  then show ?case by simp
next
  case (Cons n ns)
  show ?case
  proof (cases "n = anum")
    case True
    then show ?thesis using Cons.IH [of seen b13 sp13] Cons.prems
      by (simp add: step13_def visitStep_def)
  next
    case False
    then show ?thesis
      using Cons.IH [of "insert n seen" "b13 @ [(b, n)]" "sp13 @ [(b, n)]"]
            Cons.IH [of seen "b13 @ [(b, n)]" sp13] Cons.prems
      by (simp add: step13_def visitStep_def)
  qed
qed

lemma visit_keeps_seen: "x \<in> snd st \<Longrightarrow> x \<in> snd (fold (visitStep mk p) ns st)"
proof (induction ns arbitrary: st)
  case Nil
  then show ?case by simp
next
  case (Cons n ns)
  have "x \<in> snd (visitStep mk p n st)" using Cons.prems
    by (cases st) (simp add: visitStep_def)
  then show ?case using Cons.IH by simp
qed

lemma build13_outer:
  "anum \<in> seen \<Longrightarrow>
   fold (\<lambda>b. fold (step13 anum b) (nb b)) bs (b13, sp13, seen)
   = (b13 @ concat (map (\<lambda>b. map (Pair b) (filter (\<lambda>n. n \<noteq> anum) (nb b))) bs),
      visitFold nb Pair bs (sp13, seen))"
proof (induction bs arbitrary: b13 sp13 seen)
  case Nil
  then show ?case by (simp add: visitFold_def)
next
  case (Cons b bs)
  obtain sp' seen' where r: "fold (visitStep Pair b) (nb b) (sp13, seen) = (sp', seen')"
    by (cases "fold (visitStep Pair b) (nb b) (sp13, seen)")
  have "anum \<in> seen'" using visit_keeps_seen [of anum "(sp13, seen)" Pair b "nb b"] Cons.prems r
    by simp
  then show ?case using Cons.IH [of seen' _ sp'] Cons.prems
    by (simp add: step13_inner r visitFold_def)
qed


lemma distinct_map_sort: "distinct (map f (sort xs)) = distinct (map f xs)"
  by (simp add: distinct_map)

lemma stepShort14_visit: "stepShort14 = visitStep (\<lambda>p n. (fst p, snd p, n))"
  by (intro ext) (simp add: stepShort14_def visitStep_def split: prod.split)

lemma stepShort15_visit:
  "stepShort15 = visitStep (\<lambda>t n. (fst t, fst (snd t), snd (snd t), n))"
  by (intro ext) (simp add: stepShort15_def visitStep_def split: prod.split)

lemma set_build14:
  "set (build14 as anum b13)
   = {(fst p, snd p, n) | p n. p \<in> set b13 \<and> n \<in> set (bond12 (atomAt as (snd p)))
                              \<and> n \<noteq> anum \<and> n \<noteq> fst p}"
  by (auto simp: build14_def)

lemma set_build15:
  "set (build15 as anum b14)
   = {(fst t, fst (snd t), snd (snd t), n) | t n.
        t \<in> set b14 \<and> n \<in> set (bond12 (atomAt as (snd (snd t))))
        \<and> n \<noteq> anum \<and> n \<noteq> fst t \<and> n \<noteq> fst (snd t)}"
  by (auto simp: build15_def split: prod.splits)

lemma buildBondLists_shortPathsOk: "shortPathsOk anum (buildBondLists as0 anum)"
proof -
  define a where "a = (atomAt as0 anum)\<lparr>bond12 := sort (bond12 (atomAt as0 anum))\<rparr>"
  define as where "as = as0[nat anum := a]"
  define nb where "nb = (\<lambda>b. bond12 (atomAt as b))"
  define seen0 where "seen0 = insert anum {} \<union> set (bond12 a)"
  define b13u where
    "b13u = concat (map (\<lambda>b. map (Pair b) (filter (\<lambda>n. n \<noteq> anum) (nb b))) (bond12 a))"
  obtain sp13u seen13 where r13: "visitFold nb Pair (bond12 a) ([], seen0) = (sp13u, seen13)"
    by (cases "visitFold nb Pair (bond12 a) ([], seen0)")
  define b13 where "b13 = sort b13u"
  define sp13 where "sp13 = sort sp13u"
  define b14 where "b14 = sort (build14 as anum b13)"
  obtain sp14u seen14 where
    r14: "visitFold (\<lambda>p. nb (snd p)) (\<lambda>p n. (fst p, snd p, n)) sp13 ([], seen13) = (sp14u, seen14)"
    by (cases "visitFold (\<lambda>p. nb (snd p)) (\<lambda>p n. (fst p, snd p, n)) sp13 ([], seen13)")
  define sp14 where "sp14 = sort sp14u"
  define b15 where "b15 = sort (build15 as anum b14)"
  obtain sp15u seen15 where
    r15: "visitFold (\<lambda>t. nb (snd (snd t))) (\<lambda>t n. (fst t, fst (snd t), snd (snd t), n)) sp14
            ([], seen14) = (sp15u, seen15)"
    by (cases "visitFold (\<lambda>t. nb (snd (snd t))) (\<lambda>t n. (fst t, fst (snd t), snd (snd t), n)) sp14
                 ([], seen14)")
  have anum0: "anum \<in> seen0" by (simp add: seen0_def)
  have nb_app: "bond12 (atomAt as b) = nb b" for b by (simp add: nb_def)
  have b13_eq: "build13 as anum (bond12 a) seen0 = (b13u, sp13u, seen13)"
    using build13_outer [of anum seen0 nb "bond12 a" "[]" "[]"] anum0
    by (simp add: build13_def nb_app b13u_def r13)
  have s14_eq: "buildShort14 as sp13 seen13 = (sp14u, seen14)"
    using r14 by (simp add: buildShort14_def stepShort14_visit visitFold_def nb_app)
  have s15_eq: "buildShort15 as sp14 seen14 = (sp15u, seen15)"
    using r15 by (simp add: buildShort15_def stepShort15_visit visitFold_def nb_app)
  have res: "buildBondLists as0 anum
             = a\<lparr>bond13 := b13, shortPath13 := sp13, bond14 := b14, shortPath14 := sp14,
                 bond15 := b15, shortPath15 := sort sp15u\<rparr>"
    unfolding buildBondLists_def Let_def a_def [symmetric] as_def [symmetric]
      seen0_def [symmetric]
    by (simp add: b13_eq s14_eq [unfolded sp13_def] s15_eq [unfolded sp14_def]
          b13_def sp13_def b14_def sp14_def b15_def)

  have inv13: "visitInv snd nb Pair (set (bond12 a)) seen0 (sp13u, seen13)"
    using visitFold_inv [where tg = snd and mk = Pair and nbrs = nb and ps = "bond12 a"
        and P = "set (bond12 a)" and seenI = seen0 and st = "([], seen0)"]
    by (simp add: visitInv_init r13)
  have inv14: "visitInv (\<lambda>t. snd (snd t)) (\<lambda>p. nb (snd p)) (\<lambda>p n. (fst p, snd p, n))
                 (set sp13) seen13 (sp14u, seen14)"
    using visitFold_inv [where tg = "\<lambda>t. snd (snd t)" and mk = "\<lambda>p n. (fst p, snd p, n)"
        and nbrs = "\<lambda>p. nb (snd p)" and ps = sp13 and P = "set sp13" and seenI = seen13
        and st = "([], seen13)"]
    by (simp add: visitInv_init r14)
  have inv15: "visitInv (\<lambda>q. snd (snd (snd q))) (\<lambda>t. nb (snd (snd t)))
                 (\<lambda>t n. (fst t, fst (snd t), snd (snd t), n)) (set sp14) seen14 (sp15u, seen15)"
    using visitFold_inv [where tg = "\<lambda>q. snd (snd (snd q))"
        and mk = "\<lambda>t n. (fst t, fst (snd t), snd (snd t), n)"
        and nbrs = "\<lambda>t. nb (snd (snd t))" and ps = sp14 and P = "set sp14" and seenI = seen14
        and st = "([], seen14)"]
    by (simp add: visitInv_init r15)

  have d13: "distinct (map snd sp13u)" and seen13: "seen13 = seen0 \<union> snd ` set sp13u"
    and dj13: "snd ` set sp13u \<inter> seen0 = {}"
    and ex13: "\<forall>q \<in> set sp13u. \<exists>p \<in> set (bond12 a). \<exists>n \<in> set (nb p). q = (p, n)"
    using inv13 by (simp_all add: visitInv_def)
  have d14: "distinct (map (\<lambda>t. snd (snd t)) sp14u)"
    and seen14: "seen14 = seen13 \<union> (\<lambda>t. snd (snd t)) ` set sp14u"
    and dj14: "(\<lambda>t. snd (snd t)) ` set sp14u \<inter> seen13 = {}"
    and ex14: "\<forall>q \<in> set sp14u. \<exists>p \<in> set sp13. \<exists>n \<in> set (nb (snd p)). q = (fst p, snd p, n)"
    using inv14 by (simp_all add: visitInv_def)
  have d15: "distinct (map (\<lambda>q. snd (snd (snd q))) sp15u)"
    and dj15: "(\<lambda>q. snd (snd (snd q))) ` set sp15u \<inter> seen14 = {}"
    and ex15: "\<forall>q \<in> set sp15u. \<exists>t \<in> set sp14. \<exists>n \<in> set (nb (snd (snd t))).
                 q = (fst t, fst (snd t), snd (snd t), n)"
    using inv15 by (simp_all add: visitInv_def)

  have sub13: "set sp13 \<subseteq> set b13"
  proof
    fix q assume "q \<in> set sp13"
    then have q: "q \<in> set sp13u" by (simp add: sp13_def)
    then obtain p n where pn: "p \<in> set (bond12 a)" "n \<in> set (nb p)" "q = (p, n)"
      using ex13 by blast
    have "n \<notin> seen0" using dj13 q pn by force
    then have "n \<noteq> anum" using anum0 by auto
    then show "q \<in> set b13" using pn by (auto simp: b13_def b13u_def)
  qed
  have fst13: "fst p \<in> seen0" and snd13: "snd p \<in> seen13" if "p \<in> set sp13" for p
  proof -
    have q: "p \<in> set sp13u" using that by (simp add: sp13_def)
    then obtain b n where "b \<in> set (bond12 a)" "p = (b, n)" using ex13 by blast
    then show "fst p \<in> seen0" by (simp add: seen0_def)
    show "snd p \<in> seen13" using q by (auto simp: seen13)
  qed
  have anum13: "anum \<in> seen13" using anum0 by (simp add: seen13)
  have sub14: "set sp14 \<subseteq> set b14"
  proof
    fix q assume "q \<in> set sp14"
    then have q: "q \<in> set sp14u" by (simp add: sp14_def)
    then obtain p n where pn: "p \<in> set sp13" "n \<in> set (nb (snd p))" "q = (fst p, snd p, n)"
      using ex14 by blast
    have "n \<notin> seen13" using dj14 q pn by force
    then have "n \<noteq> anum" "n \<noteq> fst p" using anum13 fst13 [OF pn(1)] by (auto simp: seen13)
    then show "q \<in> set b14" using pn sub13
      by (auto simp: b14_def set_build14 nb_def)
  qed
  have anum14: "anum \<in> seen14" using anum13 by (simp add: seen14)
  have in14: "fst t \<in> seen14 \<and> fst (snd t) \<in> seen14" if "t \<in> set sp14" for t
  proof -
    have "t \<in> set sp14u" using that by (simp add: sp14_def)
    then obtain p n where "p \<in> set sp13" "t = (fst p, snd p, n)" using ex14 by blast
    then show ?thesis using fst13 [of p] snd13 [of p] by (auto simp: seen14 seen13)
  qed
  have sub15: "set (sort sp15u) \<subseteq> set b15"
  proof
    fix q assume "q \<in> set (sort sp15u)"
    then have q: "q \<in> set sp15u" by simp
    then obtain t n where tn: "t \<in> set sp14" "n \<in> set (nb (snd (snd t)))"
        "q = (fst t, fst (snd t), snd (snd t), n)"
      using ex15 by blast
    have "n \<notin> seen14" using dj15 q tn by force
    then have "n \<noteq> anum" "n \<noteq> fst t" "n \<noteq> fst (snd t)"
      using anum14 in14 [OF tn(1)] by auto
    then show "q \<in> set b15" using tn sub14
      by (auto simp: b15_def set_build15 nb_def)
  qed
  have t13: "set (map snd sp13) = snd ` set sp13u" by (simp add: sp13_def)
  have t14: "set (map (\<lambda>t. snd (snd t)) sp14) = (\<lambda>t. snd (snd t)) ` set sp14u"
    by (simp add: sp14_def)
  have t15: "set (map (\<lambda>q. snd (snd (snd q))) (sort sp15u)) = (\<lambda>q. snd (snd (snd q))) ` set sp15u"
    by simp
  have dist: "distinct (map snd sp13 @ map (\<lambda>t. snd (snd t)) sp14
                @ map (\<lambda>q. snd (snd (snd q))) (sort sp15u))"
    unfolding distinct_append t13 t14 t15 set_append
    using d13 d14 d15 dj14 dj15
    by (auto simp: sp13_def sp14_def distinct_map_sort seen13 seen14)
  have disj: "set (map snd sp13 @ map (\<lambda>t. snd (snd t)) sp14
                @ map (\<lambda>q. snd (snd (snd q))) (sort sp15u))
              \<inter> insert anum (set (bond12 a)) = {}"
    unfolding t13 t14 t15 set_append
    using dj13 dj14 dj15 by (auto simp: seen13 seen14 seen0_def)
  show ?thesis
    using sub13 sub14 sub15 dist disj
    by (simp add: res shortPathsOk_def shortTargets_def)
qed

lemma sameBondLists_shortPathsOk: "sameBondLists a b \<Longrightarrow> shortPathsOk k a = shortPathsOk k b"
  by (simp add: sameBondLists_def shortPathsOk_def shortTargets_def)

lemma sameBondLists_refl: "sameBondLists a a"
  by (simp add: sameBondLists_def)

lemma sameBondLists_trans: "sameBondLists a b \<Longrightarrow> sameBondLists b c \<Longrightarrow> sameBondLists a c"
  by (simp add: sameBondLists_def)

lemma crossBodyLists_same: "sameBondLists (crossBodyLists as a) a"
  by (simp add: sameBondLists_def crossBodyLists_def Let_def)

lemma lookupStretch_same: "sameBondLists (snd (lookupStretch mm c a)) a"
  by (simp add: sameBondLists_def lookupStretch_def split: prod.split)

lemma lookupBend_same: "sameBondLists (snd (lookupBend mm c a)) a"
  by (simp add: sameBondLists_def lookupBend_def split: prod.split)

lemma lookupTorsion_same: "sameBondLists (snd (lookupTorsion mm c a)) a"
  by (simp add: sameBondLists_def lookupTorsion_def split: prod.split)

lemma realizeImproper_same: "sameBondLists (snd (realizeImproper mm c s a)) a"
  by (simp add: sameBondLists_def realizeImproper_def split: prod.split)

lemma realizeAtomParams_same: "sameBondLists (snd (snd (realizeAtomParams mm c s a))) a"
  by (simp add: realizeAtomParams_def sameBondLists_def lookupStretch_def lookupBend_def
        lookupTorsion_def realizeImproper_def split: prod.split option.split)

lemma realizeAtom_atoms:
  "\<exists>a'. snd (snd (realizeAtom anum (s, mm))) = mm\<lparr>atoms := (atoms mm)[nat anum := a']\<rparr>
        \<and> sameBondLists a' (buildBondLists (atoms mm) anum)"
proof -
  define a1 where "a1 = buildBondLists (atoms mm) anum"
  define a2 where "a2 = crossBodyLists ((atoms mm)[nat anum := a1]) a1"
  define mm2 where "mm2 = mm\<lparr>atoms := (atoms mm)[nat anum := a2]\<rparr>"
  define c1 where "c1 = getAtomClassIndex mm2 anum"
  define a' where "a' = snd (snd (realizeAtomParams mm2 c1 s a2))"
  have "sameBondLists a' a2" by (simp add: a'_def realizeAtomParams_same)
  moreover have "sameBondLists a2 a1" by (simp add: a2_def crossBodyLists_same)
  ultimately have "sameBondLists a' a1" by (rule sameBondLists_trans)
  moreover have "snd (snd (realizeAtom anum (s, mm))) = mm\<lparr>atoms := (atoms mm)[nat anum := a']\<rparr>"
    by (simp add: realizeAtom_def Let_def a'_def c1_def mm2_def a2_def a1_def split: prod.split)
  ultimately show ?thesis unfolding a1_def by blast
qed

lemma realizeAtom_allOk:
  assumes "allShortPathsOk (atoms mm)"
  shows "allShortPathsOk (atoms (snd (snd (realizeAtom (int k) (s, mm)))))"
proof -
  obtain a' where r: "snd (snd (realizeAtom (int k) (s, mm))) = mm\<lparr>atoms := (atoms mm)[nat (int k) := a']\<rparr>"
    and same: "sameBondLists a' (buildBondLists (atoms mm) (int k))"
    using realizeAtom_atoms [of "int k" s mm] by blast
  have ok: "shortPathsOk (int k) a'"
    using sameBondLists_shortPathsOk [OF same] buildBondLists_shortPathsOk by simp
  show ?thesis
  proof (cases "k < length (atoms mm)")
    case True
    then show ?thesis using assms ok
      by (simp add: r allShortPathsOk_def nth_list_update)
  next
    case False
    then show ?thesis using assms by (simp add: r allShortPathsOk_def)
  qed
qed

lemma realizeAtomLoop_allOk:
  "allShortPathsOk (atoms mm) \<Longrightarrow>
   allShortPathsOk (atoms (snd (snd (realizeAtomLoop ks (s, mm)))))"
proof (induction ks arbitrary: s mm)
  case Nil
  then show ?case by simp
next
  case (Cons k ks)
  obtain s' e mm' where r: "realizeAtom (int k) (s, mm) = (s', e, mm')"
    by (cases "realizeAtom (int k) (s, mm)")
  have ok: "allShortPathsOk (atoms mm')"
    using realizeAtom_allOk [OF Cons.prems, of k s] by (simp add: r)
  show ?case
  proof (cases e)
    case None
    then show ?thesis using Cons.IH [OF ok, of s'] by (simp add: r)
  next
    case (Some err)
    then show ?thesis using ok by (simp add: r)
  qed
qed

lemma assignBody_empty:
  "list_all shortPathsEmpty as \<Longrightarrow> list_all shortPathsEmpty (assignBody b as)"
proof -
  have step: "list_all shortPathsEmpty
                (fold (\<lambda>ap as'. as'[nat (fst ap) :=
                    (atomAt as' (fst ap))\<lparr>bodyIx := m, station_B := snd ap\<rparr>]) aps as)"
    if "list_all shortPathsEmpty as" for aps m as
    using that
  proof (induction aps arbitrary: as)
    case Nil
    then show ?case by simp
  next
    case (Cons ap aps)
    have "list_all shortPathsEmpty
            (as[nat (fst ap) := (atomAt as (fst ap))\<lparr>bodyIx := m, station_B := snd ap\<rparr>])"
    proof (cases "nat (fst ap) < length as")
      case True
      then have "shortPathsEmpty (as ! nat (fst ap))" using Cons.prems
        by (simp add: list_all_length)
      then show ?thesis using Cons.prems True
        by (auto simp: list_all_length nth_list_update atomAt_def shortPathsEmpty_def)
    next
      case False
      then show ?thesis using Cons.prems by (simp add: list_update_beyond)
    qed
    then show ?case using Cons.IH by simp
  qed
  assume "list_all shortPathsEmpty as"
  then show ?thesis using step by (simp add: assignBody_def)
qed

lemma assignBodies_empty:
  "list_all shortPathsEmpty as \<Longrightarrow> list_all shortPathsEmpty (assignBodies bodies as)"
proof -
  have f: "list_all shortPathsEmpty (fold assignBody bodies xs)"
    if "list_all shortPathsEmpty xs" for xs
    using that by (induction bodies arbitrary: xs) (simp_all add: assignBody_empty)
  assume "list_all shortPathsEmpty as"
  then have "list_all shortPathsEmpty (map (\<lambda>a. a\<lparr>bodyIx := InvalidIndex\<rparr>) as)"
    by (simp add: list_all_iff shortPathsEmpty_def)
  then show ?thesis using f by (simp add: assignBodies_def)
qed

lemma empty_allOk: "list_all shortPathsEmpty as \<Longrightarrow> allShortPathsOk as"
  by (simp add: list_all_length allShortPathsOk_def shortPathsEmpty_def shortPathsOk_def
        shortTargets_def)

lemma assignBody_length: "length (assignBody b as) = length as"
proof -
  have "length (fold (\<lambda>ap as'. as'[nat (fst ap) :=
                   (atomAt as' (fst ap))\<lparr>bodyIx := m, station_B := snd ap\<rparr>]) aps xs) = length xs"
    for aps m xs
    by (induction aps arbitrary: xs) simp_all
  then show ?thesis by (simp add: assignBody_def)
qed

lemma assignBodies_length: "length (assignBodies bodies as) = length as"
proof -
  have "length (fold assignBody bodies xs) = length xs" for xs
    by (induction bodies arbitrary: xs) (simp_all add: assignBody_length)
  then show ?thesis by (simp add: assignBodies_def)
qed

lemma realizeAtom_length:
  "length (atoms (snd (snd (realizeAtom anum (s, mm))))) = length (atoms mm)"
  using realizeAtom_atoms [of anum s mm] by auto

lemma realizeAtomLoop_length:
  "length (atoms (snd (snd (realizeAtomLoop ks (s, mm))))) = length (atoms mm)"
proof (induction ks arbitrary: s mm)
  case Nil
  show ?case by simp
next
  case (Cons k ks)
  obtain s' e mm' where r: "realizeAtom (int k) (s, mm) = (s', e, mm')"
    by (cases "realizeAtom (int k) (s, mm)")
  have len: "length (atoms mm') = length (atoms mm)"
    using realizeAtom_length [of "int k" s mm] by (simp add: r)
  show ?case using Cons.IH [of s' mm'] len by (cases e) (simp_all add: r)
qed

lemma realizeSubsystemTopologyImpl_length:
  "length (atoms (snd (snd (realizeSubsystemTopologyImpl (s, mm))))) = length (atoms mm)"
  by (simp add: realizeSubsystemTopologyImpl_def Let_def realizeAtomLoop_length
        assignBodies_length)

text \<open>
  Claim C5. After topology realization (once the check of the charged atom types has
  passed, whether or not a parameter is found missing later), for every atom: each
  shortest-path list is contained in the all-paths list of the same length, no target
  atom occurs twice in the three shortest-path lists, and no target is the atom itself or
  one of its direct neighbours.
\<close>

theorem realized_shortPaths_within_bond_lists:
  assumes types: "list_all (\<lambda>a. isValidChargedAtomType mm (chargedAtomTypeIndex a)) (atoms mm)"
      and wf: "\<forall>a \<in> set (atoms mm). \<forall>b \<in> set (bond12 a). 0 \<le> b \<and> b < int (length (atoms mm))"
      and i: "i < length (atoms mm)"
  shows "shortPathsOk (int i)
           (atoms (snd (snd (realizeSubsystemTopologyImpl (static_bt, mm)))) ! i)"
proof -
  let ?as1 = "map Atom_invalidateTopologicalCache (atoms mm)"
  let ?as2 = "assignBodies (duMMSubsetOfBodies mm) ?as1"
  have "list_all shortPathsEmpty ?as1"
    by (simp add: list_all_iff shortPathsEmpty_def Atom_invalidateTopologicalCache_def)
  then have "allShortPathsOk ?as2" by (intro empty_allOk assignBodies_empty)
  then have "allShortPathsOk
               (atoms (snd (snd (realizeAtomLoop [0 ..< length ?as2] (static_bt, mm\<lparr>atoms := ?as2\<rparr>)))))"
    using realizeAtomLoop_allOk [of "mm\<lparr>atoms := ?as2\<rparr>"] by simp
  then have "allShortPathsOk (atoms (snd (snd (realizeSubsystemTopologyImpl (static_bt, mm)))))"
    using types by (simp add: realizeSubsystemTopologyImpl_def Let_def)
  then show ?thesis
    using i realizeSubsystemTopologyImpl_length [of static_bt mm]
    by (simp add: allShortPathsOk_def)
qed

theorem realized_shortPaths_within_bond_lists_witness:
  "shortPathsOk 1 (atoms (snd (snd (realizeSubsystemTopologyImpl (None, starRep)))) ! 1)"
  using realized_shortPaths_within_bond_lists [of starRep 1 None]
  by (simp add: starRep_def newRep_def newAtom_def exType_def isValidChargedAtomType_def
        ChargedAtomType_isValid_def)

section \<open>Scaling and unscaling the bonded atoms\<close>

lemma setScales_Nil: "setScales v c [] st = st"
  by (simp add: setScales_def)

lemma setScales_Cons:
  "setScales v c (ix # ixs) (vs, cs) = setScales v c ixs (vs[nat ix := v], cs[nat ix := c])"
  by (simp add: setScales_def)

lemma setScales_length:
  "length (fst (setScales v c ixs st)) = length (fst st)
   \<and> length (snd (setScales v c ixs st)) = length (snd st)"
proof (induction ixs arbitrary: st)
  case Nil
  show ?case by (simp add: setScales_Nil)
next
  case (Cons ix ixs)
  obtain vs cs where st: "st = (vs, cs)" by (cases st)
  show ?case using Cons.IH [of "(vs[nat ix := v], cs[nat ix := c])"]
    by (simp add: st setScales_Cons)
qed

lemma setScales_nth:
  "(i < length (fst st) \<longrightarrow>
      fst (setScales v c ixs st) ! i = (if i \<in> nat ` set ixs then v else fst st ! i))
   \<and> (i < length (snd st) \<longrightarrow>
      snd (setScales v c ixs st) ! i = (if i \<in> nat ` set ixs then c else snd st ! i))"
proof (induction ixs arbitrary: st)
  case Nil
  show ?case by (simp add: setScales_Nil)
next
  case (Cons ix ixs)
  obtain vs cs where st: "st = (vs, cs)" by (cases st)
  show ?case using Cons.IH [of "(vs[nat ix := v], cs[nat ix := c])"]
    by (auto simp: st setScales_Cons nth_list_update)
qed

lemma scale_length:
  "length (fst (scaleBondedAtoms mm a st)) = length (fst st)
   \<and> length (snd (scaleBondedAtoms mm a st)) = length (snd st)"
  by (simp add: scaleBondedAtoms_def Let_def setScales_length)

lemma unscale_length:
  "length (fst (unscaleBondedAtoms mm a st)) = length (fst st)
   \<and> length (snd (unscaleBondedAtoms mm a st)) = length (snd st)"
  by (simp add: unscaleBondedAtoms_def Let_def setScales_length)

lemma scale_untouched:
  "i \<notin> scaledIndices mm a \<Longrightarrow>
   (i < length (fst st) \<longrightarrow> fst (scaleBondedAtoms mm a st) ! i = fst st ! i)
   \<and> (i < length (snd st) \<longrightarrow> snd (scaleBondedAtoms mm a st) ! i = snd st ! i)"
  by (simp add: scaleBondedAtoms_def scaledIndices_def Let_def setScales_nth setScales_length image_Un
        split: if_splits)

lemma unscale_nth:
  "(i < length (fst st) \<longrightarrow>
      fst (unscaleBondedAtoms mm a st) ! i = (if i \<in> scaledIndices mm a then 1 else fst st ! i))
   \<and> (i < length (snd st) \<longrightarrow>
      snd (unscaleBondedAtoms mm a st) ! i = (if i \<in> scaledIndices mm a then 1 else snd st ! i))"
  by (simp add: unscaleBondedAtoms_def scaledIndices_def Let_def setScales_nth setScales_length image_Un)

text \<open>
  Claim C6. For every atom whose cross-body lists hold indices of the scale arrays, and
  for scale arrays that are 1 everywhere, \<^verbatim>\<open>scaleBondedAtoms\<close> followed by
  \<^verbatim>\<open>unscaleBondedAtoms\<close> leaves both arrays 1 everywhere: the two passes walk the same
  lists under the same guards.
\<close>

theorem unscale_after_scale_restores_ones:
  assumes "\<forall>ix \<in> set (xbond12 a) \<union> set (targets13 a) \<union> set (targets14 a) \<union> set (targets15 a).
             0 \<le> ix \<and> ix < int n"
  shows "unscaleBondedAtoms mm a (scaleBondedAtoms mm a (replicate n 1, replicate n 1))
         = (replicate n 1, replicate n 1)"
proof -
  let ?st = "(replicate n (1::real), replicate n (1::real))"
  let ?s = "scaleBondedAtoms mm a ?st"
  let ?u = "unscaleBondedAtoms mm a ?s"
  have len_s: "length (fst ?s) = n" "length (snd ?s) = n"
    using scale_length [of mm a ?st] by simp_all
  have len_u: "length (fst ?u) = n" "length (snd ?u) = n"
    using unscale_length [of mm a ?s] len_s by simp_all
  have nth_u: "fst ?u ! i = 1 \<and> snd ?u ! i = 1" if "i < n" for i
  proof (cases "i \<in> scaledIndices mm a")
    case True
    then show ?thesis using unscale_nth [of i ?s mm a] len_s that by simp
  next
    case False
    then show ?thesis
      using unscale_nth [of i ?s mm a] scale_untouched [of i mm a ?st] len_s that by simp
  qed
  have "fst ?u = replicate n 1"
    by (rule nth_equalityI) (simp_all add: len_u nth_u)
  moreover have "snd ?u = replicate n 1"
    by (rule nth_equalityI) (simp_all add: len_u nth_u)
  ultimately show ?thesis by (simp add: prod_eq_iff)
qed

theorem unscale_after_scale_restores_ones_witness:
  "unscaleBondedAtoms (newRep\<lparr>vdwScale14 := 0.5, coulombScale14 := 0.5\<rparr>)
     ((newAtom 0 0 [1])\<lparr>xbond12 := [1], xshortPath13 := [(1, 2)], xshortPath14 := [(1, 2, 3)]\<rparr>)
     (scaleBondedAtoms (newRep\<lparr>vdwScale14 := 0.5, coulombScale14 := 0.5\<rparr>)
        ((newAtom 0 0 [1])\<lparr>xbond12 := [1], xshortPath13 := [(1, 2)], xshortPath14 := [(1, 2, 3)]\<rparr>)
        (replicate 4 1, replicate 4 1))
   = (replicate 4 1, replicate 4 1)"
  using unscale_after_scale_restores_ones
    [of "(newAtom 0 0 [1])\<lparr>xbond12 := [1], xshortPath13 := [(1, 2)], xshortPath14 := [(1, 2, 3)]\<rparr>"
        4 "newRep\<lparr>vdwScale14 := 0.5, coulombScale14 := 0.5\<rparr>"]
  by (simp add: newAtom_def targets13_def targets14_def targets15_def)

section \<open>Bond stretch\<close>

lemma dot_self_zero: "dot a a = 0 \<longleftrightarrow> a = vzero"
proof -
  obtain a0 a1 a2 where a: "a = (a0, a1, a2)" by (cases a)
  have "0 \<le> a0 * a0" "0 \<le> a1 * a1" "0 \<le> a2 * a2" by simp_all
  then have "a0 * a0 + a1 * a1 + a2 * a2 = 0 \<longleftrightarrow> a0 * a0 = 0 \<and> a1 * a1 = 0 \<and> a2 * a2 = 0"
    by linarith
  then have "a0 * a0 + a1 * a1 + a2 * a2 = 0 \<longleftrightarrow> a0 = 0 \<and> a1 = 0 \<and> a2 = 0"
    by simp
  then show ?thesis by (simp add: a vzero_def)
qed

text \<open>
  Claim C7. For a cross-body 1-2 bond with separation \<open>d > 0\<close>, stretch parameters
  \<open>(k, d0)\<close> and global stretch scale \<open>g\<close>, the kernel adds \<open>g k (d - d0)\<^sup>2\<close> to the
  energy, with no factor one half; the force \<open>f2\<close> on the partner atom is the bond vector
  times \<open>- 2 g k (d - d0) / d\<close>; \<open>f2\<close> is added to the force of the partner's body and
  subtracted from the force of the focal atom's body, so the two linear contributions
  cancel.
\<close>

theorem stretch_energy_and_force:
  assumes d: "vnorm (vsub a2Pos_G a1Pos_G) > 0"
      and b: "bodyIndex1 \<noteq> b2" "0 \<le> bodyIndex1" "0 \<le> b2"
             "nat bodyIndex1 < length forceCache" "nat b2 < length forceCache"
      and res: "stretchBond g bs a1Station_G a1Pos_G a2Station_G a2Pos_G bodyIndex1 b2
                  (energyCache, forceCache) = (energyCache', forceCache')"
      and f2: "f2 = smul (- 2 * g * stretchK bs * (vnorm (vsub a2Pos_G a1Pos_G) - stretchD0 bs)
                          / vnorm (vsub a2Pos_G a1Pos_G)) (vsub a2Pos_G a1Pos_G)"
  shows "energyCache' = energyCache
           + g * stretchK bs * (vnorm (vsub a2Pos_G a1Pos_G) - stretchD0 bs)\<^sup>2
         \<and> snd (forceCache' ! nat b2) = vadd (snd (forceCache ! nat b2)) f2
         \<and> snd (forceCache' ! nat bodyIndex1) = vsub (snd (forceCache ! nat bodyIndex1)) f2
         \<and> fst (forceCache' ! nat b2) = vadd (fst (forceCache ! nat b2)) (cross a2Station_G f2)
         \<and> fst (forceCache' ! nat bodyIndex1)
             = vsub (fst (forceCache ! nat bodyIndex1)) (cross a1Station_G f2)
         \<and> vadd (vsub (snd (forceCache' ! nat b2)) (snd (forceCache ! nat b2)))
                (vsub (snd (forceCache' ! nat bodyIndex1)) (snd (forceCache ! nat bodyIndex1)))
             = vzero"
proof -
  have ne: "nat bodyIndex1 \<noteq> nat b2" using b by simp
  have "fst (stretchForce g bs a1Pos_G a2Pos_G)
            = g * stretchK bs * (vnorm (vsub a2Pos_G a1Pos_G) - stretchD0 bs)\<^sup>2"
    by (simp add: stretchForce_def Let_def power2_eq_square)
  moreover have "snd (stretchForce g bs a1Pos_G a2Pos_G) = f2"
    by (simp add: stretchForce_def Let_def f2 mult.assoc)
  ultimately have sf: "stretchForce g bs a1Pos_G a2Pos_G
            = (g * stretchK bs * (vnorm (vsub a2Pos_G a1Pos_G) - stretchD0 bs)\<^sup>2, f2)"
    by (simp add: prod_eq_iff)
  have e: "energyCache' = energyCache
           + g * stretchK bs * (vnorm (vsub a2Pos_G a1Pos_G) - stretchD0 bs)\<^sup>2"
    using res by (simp add: stretchBond_def sf Let_def)
  have fc: "forceCache' =
      (forceCache[nat b2 := svadd (forceCache ! nat b2) (cross a2Station_G f2, f2)])
        [nat bodyIndex1 := svsub (forceCache ! nat bodyIndex1) (cross a1Station_G f2, f2)]"
    using res ne by (simp add: stretchBond_def sf Let_def)
  have at2: "forceCache' ! nat b2 = svadd (forceCache ! nat b2) (cross a2Station_G f2, f2)"
    using ne b by (simp add: fc)
  have at1: "forceCache' ! nat bodyIndex1
             = svsub (forceCache ! nat bodyIndex1) (cross a1Station_G f2, f2)"
    using b by (simp add: fc)
  have cancel: "vadd (vsub (vadd p q) p) (vsub (vsub p' q) p') = vzero" for p q p'
    by (cases p; cases q; cases p') (simp add: vzero_def)
  show ?thesis
    by (simp add: e at1 at2 svadd_def svsub_def cancel)
qed

theorem stretch_energy_and_force_witness:
  "fst (stretchBond 1 (exStretch (0, 1)) vzero vzero vzero (2, 0, 0) 0 1
          (0, [(vzero, vzero), (vzero, vzero)])) = 500
   \<and> snd (snd (stretchBond 1 (exStretch (0, 1)) vzero vzero vzero (2, 0, 0) 0 1
          (0, [(vzero, vzero), (vzero, vzero)])) ! 1) = (- 1000, 0, 0)
   \<and> snd (snd (stretchBond 1 (exStretch (0, 1)) vzero vzero vzero (2, 0, 0) 0 1
          (0, [(vzero, vzero), (vzero, vzero)])) ! 0) = (1000, 0, 0)"
proof -
  have n: "vnorm (vsub (2, 0, 0) vzero) = 2"
    using real_sqrt_abs [of 2] by (simp add: vnorm_def vzero_def power2_eq_square)
  show ?thesis
    using stretch_energy_and_force
      [of "(2, 0, 0)" vzero 0 1 "[(vzero, vzero), (vzero, vzero)]" 1 "exStretch (0, 1)"
          vzero vzero 0
          "fst (stretchBond 1 (exStretch (0, 1)) vzero vzero vzero (2, 0, 0) 0 1
                 (0, [(vzero, vzero), (vzero, vzero)]))"
          "snd (stretchBond 1 (exStretch (0, 1)) vzero vzero vzero (2, 0, 0) 0 1
                 (0, [(vzero, vzero), (vzero, vzero)]))"
          "smul (- 2 * 1 * stretchK (exStretch (0, 1))
                  * (vnorm (vsub (2, 0, 0) vzero) - stretchD0 (exStretch (0, 1)))
                  / vnorm (vsub (2, 0, 0) vzero)) (vsub (2, 0, 0) vzero)"]
    by (simp add: n exStretch_def) (simp add: vzero_def)
qed

section \<open>Periodic torsion with a vanishing plane normal\<close>

subsection \<open>Rounding to a double\<close>















subsection \<open>The early return\<close>










subsection \<open>Parallel atoms whose computed normal is not zero\<close>


section \<open>Each interaction is evaluated once\<close>

subsection \<open>The cross-body lists after realization\<close>

lemma distinct_concat_map_mk:
  assumes inj: "\<And>p n p' n'. mk p n = mk p' n' \<Longrightarrow> p = p' \<and> n = n'"
      and "distinct ps" and "\<forall>p \<in> set ps. distinct (nbrs p)"
  shows "distinct (concat (map (\<lambda>p. map (mk p) (filter (Q p) (nbrs p))) ps))"
  using assms(2,3)
proof (induction ps)
  case Nil
  show ?case by simp
next
  case (Cons p ps)
  have "distinct (map (mk p) (filter (Q p) (nbrs p)))"
    using Cons.prems inj by (auto simp: distinct_map inj_on_def)
  moreover have "set (map (mk p) (filter (Q p) (nbrs p)))
        \<inter> set (concat (map (\<lambda>p. map (mk p) (filter (Q p) (nbrs p))) ps)) = {}"
    using Cons.prems inj by fastforce
  ultimately show ?case using Cons by simp
qed

lemma buildBondLists_bond12:
  "bond12 (buildBondLists as0 anum) = sort (bond12 (atomAt as0 anum))"
  by (simp add: buildBondLists_def Let_def split: prod.split)

lemma buildBondLists_bodyIx:
  "bodyIx (buildBondLists as0 anum) = bodyIx (atomAt as0 anum)"
  by (simp add: buildBondLists_def Let_def split: prod.split)

lemma buildBondLists_chargedAtomTypeIndex:
  "chargedAtomTypeIndex (buildBondLists as0 anum) = chargedAtomTypeIndex (atomAt as0 anum)"
  by (simp add: buildBondLists_def Let_def split: prod.split)

lemma fst_build13:
  "anum \<in> seen \<Longrightarrow>
   fst (build13 as anum b12 seen)
   = concat (map (\<lambda>b. map (Pair b) (filter (\<lambda>n. n \<noteq> anum) (bond12 (atomAt as b)))) b12)"
  using build13_outer [of anum seen "\<lambda>b. bond12 (atomAt as b)" b12 "[]" "[]"]
  by (simp add: build13_def)

lemma buildBondLists_bond13:
  "bond13 (buildBondLists as0 anum)
   = sort (concat (map (\<lambda>b. map (Pair b)
              (filter (\<lambda>n. n \<noteq> anum)
                 (bond12 (atomAt (as0[nat anum := (atomAt as0 anum)
                             \<lparr>bond12 := sort (bond12 (atomAt as0 anum))\<rparr>]) b))))
            (sort (bond12 (atomAt as0 anum)))))"
proof -
  let ?a = "(atomAt as0 anum)\<lparr>bond12 := sort (bond12 (atomAt as0 anum))\<rparr>"
  let ?as = "as0[nat anum := ?a]"
  let ?seen = "insert anum {} \<union> set (bond12 ?a)"
  have "bond13 (buildBondLists as0 anum) = sort (fst (build13 ?as anum (bond12 ?a) ?seen))"
    by (simp add: buildBondLists_def Let_def split: prod.split)
  then show ?thesis using fst_build13 [of anum ?seen ?as "bond12 ?a"] by simp
qed

lemma buildBondLists_bond14:
  "bond14 (buildBondLists as0 anum)
   = sort (build14 (as0[nat anum := (atomAt as0 anum)
                             \<lparr>bond12 := sort (bond12 (atomAt as0 anum))\<rparr>]) anum
             (bond13 (buildBondLists as0 anum)))"
  by (simp add: buildBondLists_def Let_def split: prod.split)

lemma realizeAtomParams_sameCross: "sameCross (snd (snd (realizeAtomParams mm c s a))) a"
  by (simp add: realizeAtomParams_def sameCross_def lookupStretch_def lookupBend_def
        lookupTorsion_def realizeImproper_def split: prod.split option.split)

lemma realizeAtom_result:
  "snd (snd (realizeAtom anum (s, mm)))
   = mm\<lparr>atoms := (atoms mm)[nat anum :=
        snd (snd (realizeAtomParams
          (mm\<lparr>atoms := (atoms mm)[nat anum :=
              crossBodyLists ((atoms mm)[nat anum := buildBondLists (atoms mm) anum])
                (buildBondLists (atoms mm) anum)]\<rparr>)
          (getAtomClassIndex
             (mm\<lparr>atoms := (atoms mm)[nat anum :=
                 crossBodyLists ((atoms mm)[nat anum := buildBondLists (atoms mm) anum])
                   (buildBondLists (atoms mm) anum)]\<rparr>) anum)
          s
          (crossBodyLists ((atoms mm)[nat anum := buildBondLists (atoms mm) anum])
             (buildBondLists (atoms mm) anum))))]\<rparr>"
  by (simp add: realizeAtom_def Let_def split: prod.split)

lemma crossBodyLists_fields:
  "bond12 (crossBodyLists as a) = bond12 a"
  "bodyIx (crossBodyLists as a) = bodyIx a"
  "xbond12 (crossBodyLists as a) = filter (onOtherBody as a) (bond12 a)"
  "xbond13 (crossBodyLists as a)
     = filter (\<lambda>p. onOtherBody as a (fst p) \<or> onOtherBody as a (snd p)) (bond13 a)"
  "xbond14 (crossBodyLists as a)
     = filter (\<lambda>t. case t of (t0, t1, t2) \<Rightarrow>
                 onOtherBody as a t0 \<or> onOtherBody as a t1 \<or> onOtherBody as a t2) (bond14 a)"
  by (simp_all add: crossBodyLists_def Let_def)

lemma realizeAtom_step:
  assumes inv: "storeInv N B n (atoms mm)" and g: "graphOk N n" and k: "k < n"
  shows "storeInv N B n (atoms (snd (snd (realizeAtom (int k) (s, mm)))))
         \<and> (\<forall>j. j \<noteq> k \<longrightarrow> atoms (snd (snd (realizeAtom (int k) (s, mm)))) ! j = atoms mm ! j)
         \<and> crossListsOk N B k (atoms (snd (snd (realizeAtom (int k) (s, mm)))) ! k)"
proof -
  define as where "as = atoms mm"
  define aS where "aS = (atomAt as (int k))\<lparr>bond12 := sort (bond12 (atomAt as (int k)))\<rparr>"
  define asS where "asS = as[k := aS]"
  define a1 where "a1 = buildBondLists as (int k)"
  define as1 where "as1 = as[k := a1]"
  define a2 where "a2 = crossBodyLists as1 a1"
  define mm2 where "mm2 = mm\<lparr>atoms := as[k := a2]\<rparr>"
  define a' where "a' = snd (snd (realizeAtomParams mm2 (getAtomClassIndex mm2 (int k)) s a2))"
  have len: "length as = n" using inv by (simp add: storeInv_def as_def)
  have N: "set (bond12 (as ! i)) = N i" and D: "distinct (bond12 (as ! i))"
    and Bi: "bodyIx (as ! i) = B i" if "i < n" for i
    using inv that by (simp_all add: storeInv_def as_def)
  have rng: "0 \<le> b \<and> b < int n \<and> b \<noteq> int i \<and> int i \<in> N (nat b)" if "i < n" "b \<in> N i" for i b
    using g that by (simp add: graphOk_def)
  have res: "atoms (snd (snd (realizeAtom (int k) (s, mm)))) = as[k := a']"
    by (simp add: realizeAtom_result a'_def mm2_def a2_def as1_def a1_def as_def)
  have atk: "atomAt as (int k) = as ! k" by (simp add: atomAt_def)
  have sc: "sameCross a' a2" by (simp add: a'_def realizeAtomParams_sameCross)
  have b12_a1: "bond12 a1 = sort (bond12 (as ! k))"
    by (simp add: a1_def buildBondLists_bond12 atk)
  have body_a1: "bodyIx a1 = B k"
    by (simp add: a1_def buildBondLists_bodyIx atk Bi k)
  have set12: "set (bond12 a1) = N k" and d12: "distinct (bond12 a1)"
    using N [OF k] D [OF k] by (simp_all add: b12_a1)
  \<comment> \<open>the store read by the loops\<close>
  have nbS: "set (bond12 (atomAt asS b)) = N (nat b) \<and> distinct (bond12 (atomAt asS b))"
    if "0 \<le> b" "b < int n" for b
  proof (cases "nat b = k")
    case True
    then show ?thesis using N [OF k] D [OF k] len k
      by (simp add: atomAt_def asS_def aS_def)
  next
    case False
    have "nat b < n" using that by simp
    then show ?thesis using False N [of "nat b"] D [of "nat b"]
      by (simp add: atomAt_def asS_def)
  qed
  have body1: "bodyIx (atomAt as1 b) = B (nat b)" if "0 \<le> b" "b < int n" for b
  proof (cases "nat b = k")
    case True
    then show ?thesis using len k body_a1 by (simp add: atomAt_def as1_def)
  next
    case False
    have "nat b < n" using that by simp
    then show ?thesis using False Bi [of "nat b"] by (simp add: atomAt_def as1_def)
  qed
  have other: "onOtherBody as1 a1 b \<longleftrightarrow> B (nat b) \<noteq> B k" if "0 \<le> b" "b < int n" for b
    using body1 [OF that] body_a1 by (simp add: onOtherBody_def)
  \<comment> \<open>the 1-3 list\<close>
  define b13u where
    "b13u = concat (map (\<lambda>b. map (Pair b) (filter (\<lambda>n. n \<noteq> int k) (bond12 (atomAt asS b))))
                        (bond12 a1))"
  have b13: "bond13 a1 = sort b13u"
    using buildBondLists_bond13 [of as "int k"]
    by (simp add: a1_def b13u_def asS_def aS_def b12_a1 [unfolded a1_def] atk)
  have set13: "set (bond13 a1) = {(b, c). b \<in> N k \<and> c \<in> N (nat b) \<and> c \<noteq> int k}"
  proof -
    have "set b13u = {(b, c). b \<in> set (bond12 a1) \<and> c \<in> set (bond12 (atomAt asS b)) \<and> c \<noteq> int k}"
      by (auto simp: b13u_def)
    also have "\<dots> = {(b, c). b \<in> N k \<and> c \<in> N (nat b) \<and> c \<noteq> int k}"
      using nbS rng [OF k] by (auto simp: set12)
    finally show ?thesis by (simp add: b13)
  qed
  have d13: "distinct (bond13 a1)"
  proof -
    have "distinct b13u" unfolding b13u_def
    proof (rule distinct_concat_map_mk)
      show "distinct (bond12 a1)" by (rule d12)
      show "\<forall>p \<in> set (bond12 a1). distinct (bond12 (atomAt asS p))"
        using nbS rng [OF k] by (simp add: set12)
    qed simp
    then show ?thesis by (simp add: b13)
  qed
  have rng13: "0 \<le> snd p \<and> snd p < int n \<and> 0 \<le> fst p \<and> fst p < int n"
    if "p \<in> set (bond13 a1)" for p
  proof -
    obtain b c where p: "p = (b, c)" by (cases p)
    have bc: "b \<in> N k" "c \<in> N (nat b)" using that by (simp_all add: set13 p)
    have b: "0 \<le> b \<and> b < int n" using rng [OF k bc(1)] by simp
    then have "nat b < n" by auto
    then show ?thesis using rng [of "nat b" c] bc b by (simp add: p)
  qed
  have nb13: "set (bond12 (atomAt asS (snd p))) = N (nat (snd p))"
    and dnb13: "distinct (bond12 (atomAt asS (snd p)))" if "p \<in> set (bond13 a1)" for p
    using nbS [of "snd p"] rng13 [OF that] by simp_all
  have o13: "(onOtherBody as1 a1 (fst p) \<longleftrightarrow> B (nat (fst p)) \<noteq> B k)
             \<and> (onOtherBody as1 a1 (snd p) \<longleftrightarrow> B (nat (snd p)) \<noteq> B k)"
    if "p \<in> set (bond13 a1)" for p
    using other [of "fst p"] other [of "snd p"] rng13 [OF that] by simp
  \<comment> \<open>the 1-4 list\<close>
  have b14: "bond14 a1 = sort (build14 asS (int k) (bond13 a1))"
    using buildBondLists_bond14 [of as "int k"] by (simp add: a1_def asS_def aS_def atk)
  have set14: "set (bond14 a1)
      = {(b, c, d). b \<in> N k \<and> c \<in> N (nat b) \<and> c \<noteq> int k
                    \<and> d \<in> N (nat c) \<and> d \<noteq> int k \<and> d \<noteq> b}"
  proof -
    have "set (bond14 a1)
        = {(fst p, snd p, d) | p d. p \<in> set (bond13 a1) \<and> d \<in> set (bond12 (atomAt asS (snd p)))
                                    \<and> d \<noteq> int k \<and> d \<noteq> fst p}"
      by (simp add: b14 set_build14)
    also have "\<dots> = {(fst p, snd p, d) | p d. p \<in> set (bond13 a1) \<and> d \<in> N (nat (snd p))
                                    \<and> d \<noteq> int k \<and> d \<noteq> fst p}"
      using nb13 by (auto cong: conj_cong)
    also have "\<dots> = {(b, c, d). b \<in> N k \<and> c \<in> N (nat b) \<and> c \<noteq> int k
                    \<and> d \<in> N (nat c) \<and> d \<noteq> int k \<and> d \<noteq> b}"
      by (auto simp: set13)
    finally show ?thesis .
  qed
  have d14: "distinct (bond14 a1)"
  proof -
    have "distinct (concat (map (\<lambda>p. map (\<lambda>newAtom. (fst p, snd p, newAtom))
                         (filter (\<lambda>newAtom. newAtom \<noteq> int k \<and> newAtom \<noteq> fst p)
                                 (bond12 (atomAt asS (snd p)))))
                 (bond13 a1)))"
    proof (rule distinct_concat_map_mk)
      show "distinct (bond13 a1)" by (rule d13)
      show "\<forall>p \<in> set (bond13 a1). distinct (bond12 (atomAt asS (snd p)))"
        using dnb13 by blast
    qed (auto simp: prod_eq_iff)
    then show ?thesis by (simp add: b14 build14_def)
  qed
  have rng14: "0 \<le> d \<and> d < int n \<and> 0 \<le> c \<and> c < int n \<and> 0 \<le> b \<and> b < int n"
    if "(b, c, d) \<in> set (bond14 a1)" for b c d
  proof -
    have bcd: "(b, c) \<in> set (bond13 a1)" "d \<in> N (nat c)" using that by (auto simp: set14 set13)
    have c: "0 \<le> c \<and> c < int n \<and> 0 \<le> b \<and> b < int n" using rng13 [OF bcd(1)] by simp
    then have "nat c < n" by auto
    then show ?thesis using rng [of "nat c" d] bcd c by simp
  qed
  have o14: "(onOtherBody as1 a1 b \<longleftrightarrow> B (nat b) \<noteq> B k)
             \<and> (onOtherBody as1 a1 c \<longleftrightarrow> B (nat c) \<noteq> B k)
             \<and> (onOtherBody as1 a1 d \<longleftrightarrow> B (nat d) \<noteq> B k)"
    if "(b, c, d) \<in> set (bond14 a1)" for b c d
    using other [of b] other [of c] other [of d] rng14 [OF that] by simp
  \<comment> \<open>the cross-body lists\<close>
  have x12: "xbond12 a2 = filter (onOtherBody as1 a1) (bond12 a1)"
    and x13: "xbond13 a2
        = filter (\<lambda>p. onOtherBody as1 a1 (fst p) \<or> onOtherBody as1 a1 (snd p)) (bond13 a1)"
    and x14: "xbond14 a2
        = filter (\<lambda>t. case t of (t0, t1, t2) \<Rightarrow>
                 onOtherBody as1 a1 t0 \<or> onOtherBody as1 a1 t1 \<or> onOtherBody as1 a1 t2) (bond14 a1)"
    by (simp_all add: a2_def crossBodyLists_fields)
  have s12: "set (xbond12 a2) = {b \<in> N k. B (nat b) \<noteq> B k}"
    using other rng [OF k] by (auto simp: x12 set12)
  have s13: "set (xbond13 a2)
      = {(b, c). b \<in> N k \<and> c \<in> N (nat b) \<and> c \<noteq> int k \<and> (B (nat b) \<noteq> B k \<or> B (nat c) \<noteq> B k)}"
  proof -
    have "set (xbond13 a2)
        = {(b, c). (b, c) \<in> set (bond13 a1) \<and> (B (nat b) \<noteq> B k \<or> B (nat c) \<noteq> B k)}"
      using o13 by (auto simp: x13)
    then show ?thesis by (auto simp: set13)
  qed
  have s14: "set (xbond14 a2)
      = {(b, c, d). b \<in> N k \<and> c \<in> N (nat b) \<and> c \<noteq> int k
                    \<and> d \<in> N (nat c) \<and> d \<noteq> int k \<and> d \<noteq> b
                    \<and> (B (nat b) \<noteq> B k \<or> B (nat c) \<noteq> B k \<or> B (nat d) \<noteq> B k)}"
  proof -
    have "set (xbond14 a2)
        = {(b, c, d). (b, c, d) \<in> set (bond14 a1)
                      \<and> (B (nat b) \<noteq> B k \<or> B (nat c) \<noteq> B k \<or> B (nat d) \<noteq> B k)}"
      using o14 by (auto simp: x14)
    then show ?thesis by (auto simp: set14)
  qed
  have ok2: "crossListsOk N B k a2"
    using s12 s13 s14 d12 d13 d14 by (simp add: crossListsOk_def x12 x13 x14)
  have ok': "crossListsOk N B k a'"
    using ok2 sc by (simp add: crossListsOk_def sameCross_def)
  have b12': "bond12 a' = sort (bond12 (as ! k))" and body': "bodyIx a' = B k"
    using sc b12_a1 body_a1 by (simp_all add: sameCross_def a2_def crossBodyLists_fields)
  have inv': "storeInv N B n (as[k := a'])"
    using len N D Bi k by (auto simp: storeInv_def nth_list_update b12' body')
  show ?thesis using inv' ok' len k by (simp add: res as_def [symmetric])
qed

lemma count_list_concat:
  "count_list (concat xss) e = sum_list (map (\<lambda>xs. count_list xs e) xss)"
  by (induction xss) simp_all

lemma count_list_map_iff:
  "(\<And>z. f z = y \<longleftrightarrow> z = x) \<Longrightarrow> count_list (map f xs) y = count_list xs x"
  by (induction xs) auto

lemma count_list_map_never:
  "(\<And>z. f z \<noteq> y) \<Longrightarrow> count_list (map f xs) y = 0"
  by (induction xs) auto

lemma count_list_filter_if:
  "count_list (filter P xs) x = (if P x then count_list xs x else 0)"
  by (induction xs) auto

lemma count_list_distinct:
  "distinct xs \<Longrightarrow> count_list xs x = (if x \<in> set xs then 1 else 0)"
  by (induction xs) auto

lemma sum_list_indicator:
  "sum_list (map (\<lambda>x. if g x = f then c else 0) xs) = count_list (map g xs) f * (c::nat)"
  by (induction xs) auto

lemma sum_list_upt_delta:
  "sum_list (map (\<lambda>i. if i = p then f i else 0) [m ..< n])
   = (if m \<le> p \<and> p < n then (f p :: nat) else 0)"
proof -
  have "sum_list (map (\<lambda>i. if i = p then f i else 0) [m ..< n])
        = (\<Sum>i \<in> set [m ..< n]. if i = p then f i else 0)"
    by (rule sum_list_distinct_conv_sum_set) simp
  also have "\<dots> = (if p \<in> set [m ..< n] then f p else 0)"
    by (simp add: sum.delta)
  finally show ?thesis by auto
qed

lemma distinct_concat_same_index:
  assumes d: "distinct (concat xss)" and i: "i < length xss" and j: "j < length xss"
      and xi: "x \<in> set (xss ! i)" and xj: "x \<in> set (xss ! j)"
  shows "i = j"
proof -
  have aux: False
    if lt: "p < q" and q: "q < length xss" and xp: "x \<in> set (xss ! p)" and xq: "x \<in> set (xss ! q)"
    for p q
  proof -
    have p: "p < length xss" using lt q by simp
    have split: "xss = take p xss @ xss ! p # drop (Suc p) xss"
      using id_take_nth_drop [OF p] .
    have "xss ! q \<in> set (drop (Suc p) xss)"
      using lt q by (auto simp: in_set_conv_nth intro!: exI [of _ "q - Suc p"])
    then have "x \<in> set (concat (drop (Suc p) xss))" using xq by auto
    moreover have "distinct (concat (take p xss) @ xss ! p @ concat (drop (Suc p) xss))"
      using d split by (metis concat.simps(2) concat_append)
    ultimately show False using xp by auto
  qed
  show ?thesis
  proof (rule ccontr)
    assume "i \<noteq> j"
    then consider "i < j" | "j < i" by linarith
    then show False using aux i j xi xj by cases blast+
  qed
qed

lemma distinct_concat_nth:
  assumes "distinct (concat xss)" and i: "i < length xss"
  shows "distinct (xss ! i)"
proof -
  have "concat xss = concat (take i xss) @ xss ! i @ concat (drop (Suc i) xss)"
    using id_take_nth_drop [OF i] by (metis concat.simps(2) concat_append)
  then show ?thesis using assms(1) by simp
qed

lemma map_nth_upt: "map (\<lambda>i. h (xs ! i)) [0 ..< length xs] = map h xs"
  by (rule nth_equalityI) simp_all

lemma kernel_count_bonded:
  assumes nb: "\<And>i a. count_list (kernelNonBonded (duMMSubsetOfBodies mm) i a) e = 0"
      and other: "\<And>a. a \<noteq> f \<Longrightarrow> count_list (kernelBonded (atoms mm) a) e = 0"
  shows "count_list (kernelInteractions mm) e
         = count_list (focalAtoms (duMMSubsetOfBodies mm)) f
           * count_list (kernelBonded (atoms mm) f) e"
proof -
  let ?c = "count_list (kernelBonded (atoms mm) f) e"
  let ?bodies = "duMMSubsetOfBodies mm"
  have per_atom: "count_list (kernelBonded (atoms mm) a) e
                    + count_list (kernelNonBonded ?bodies i a) e
                  = (if a = f then ?c else 0)" for i a
    using nb other by simp
  have "count_list (kernelInteractions mm) e
        = sum_list (map (\<lambda>i. count_list (map fst (allAtoms (?bodies ! i))) f * ?c)
                        [0 ..< length ?bodies])"
    by (simp add: kernelInteractions_def count_list_concat comp_def per_atom sum_list_indicator)
  also have "\<dots> = sum_list (map (\<lambda>b. count_list (map fst (allAtoms b)) f * ?c) ?bodies)"
    using map_nth_upt [of "\<lambda>b. count_list (map fst (allAtoms b)) f * ?c" ?bodies] by simp
  also have "\<dots> = count_list (focalAtoms ?bodies) f * ?c"
    by (simp add: focalAtoms_def count_list_concat comp_def sum_list_mult_const)
  finally show ?thesis .
qed

lemma kernelNonBonded_no_bonded:
  "count_list (kernelNonBonded bodies i a) (Stretch x y) = 0"
  "count_list (kernelNonBonded bodies i a) (Bend x y z) = 0"
  "count_list (kernelNonBonded bodies i a) (Torsion x y z w) = 0"
  "count_list (kernelNonBonded bodies i a) (ImproperTorsion x y z w) = 0"
  by (simp_all add: kernelNonBonded_def count_list_concat comp_def count_list_map_never)

lemma kernelBonded_Stretch:
  "count_list (kernelBonded as a) (Stretch i j)
   = (if a = i \<and> \<not> j < i then count_list (xbond12 (atomAt as i)) j else 0)"
proof -
  have 1: "count_list (map (Stretch a) l) (Stretch i j) = (if a = i then count_list l j else 0)" for l
    by (induction l) auto
  show ?thesis
    by (auto simp: kernelBonded_def Let_def 1 count_list_filter_if count_list_map_never
          split: prod.split)
qed

lemma kernelBonded_Bend:
  "count_list (kernelBonded as a) (Bend i b c)
   = (if a = i \<and> \<not> c < i then count_list (xbond13 (atomAt as i)) (b, c) else 0)"
proof -
  have 1: "count_list (map (\<lambda>p. Bend a (fst p) (snd p)) l) (Bend i b c)
           = (if a = i then count_list l (b, c) else 0)" for l
    by (induction l) auto
  show ?thesis
    by (auto simp: kernelBonded_def Let_def 1 count_list_filter_if count_list_map_never
          split: prod.split)
qed

lemma kernelBonded_Torsion:
  "count_list (kernelBonded as a) (Torsion i b c d)
   = (if a = i \<and> \<not> d < i then count_list (xbond14 (atomAt as i)) (b, c, d) else 0)"
proof -
  have 1: "count_list (map (\<lambda>t. case t of (a2, a3, a4) \<Rightarrow> Torsion a a2 a3 a4) l) (Torsion i b c d)
           = (if a = i then count_list l (b, c, d) else 0)" for l
    by (induction l) auto
  have 2: "count_list (map (\<lambda>t. case t of (a2, a3, a4) \<Rightarrow> ImproperTorsion a2 a3 a a4) l)
             (Torsion i b c d) = 0" for l
    by (induction l) auto
  show ?thesis
    by (auto simp: kernelBonded_def Let_def 1 2 count_list_filter_if count_list_map_never)
qed

lemma kernelBonded_Improper:
  "count_list (kernelBonded as a) (ImproperTorsion b c i d)
   = (if a = i then count_list (aImproperTorsion14 (atomAt as i)) (b, c, d) else 0)"
proof -
  have 1: "count_list (map (\<lambda>t. case t of (a2, a3, a4) \<Rightarrow> ImproperTorsion a2 a3 a a4) l)
             (ImproperTorsion b c i d) = (if a = i then count_list l (b, c, d) else 0)" for l
    by (induction l) auto
  have 2: "count_list (map (\<lambda>t. case t of (a2, a3, a4) \<Rightarrow> Torsion a a2 a3 a4) l)
             (ImproperTorsion b c i d) = 0" for l
    by (induction l) auto
  show ?thesis
    by (auto simp: kernelBonded_def Let_def 1 2 count_list_map_never)
qed

lemma kernelBonded_NonBonded: "count_list (kernelBonded as a) (NonBonded x y) = 0"
proof -
  have 1: "count_list (map (\<lambda>t. case t of (a2, a3, a4) \<Rightarrow> ImproperTorsion a2 a3 a a4) l)
             (NonBonded x y) = 0" for l
    by (induction l) auto
  have 2: "count_list (map (\<lambda>t. case t of (a2, a3, a4) \<Rightarrow> Torsion a a2 a3 a4) l)
             (NonBonded x y) = 0" for l
    by (induction l) auto
  show ?thesis
    by (simp add: kernelBonded_def Let_def 1 2 count_list_map_never)
qed

lemma kernelNonBonded_count:
  "count_list (kernelNonBonded bodies i a1) (NonBonded a b)
   = (if a1 = a
      then sum_list (map (\<lambda>i2. count_list (bodyAtoms bodies i2) b) [Suc i ..< length bodies])
      else 0)"
proof -
  have 1: "count_list (map (\<lambda>ap. NonBonded a1 (fst ap)) l) (NonBonded a b)
           = (if a1 = a then count_list (map fst l) b else 0)" for l
    by (induction l) auto
  show ?thesis
    by (simp add: kernelNonBonded_def count_list_concat comp_def 1 bodyAtoms_def)
qed

lemma bodyAtoms_count:
  assumes d: "distinct (focalAtoms bodies)" and p: "p < length bodies"
      and a: "a \<in> set (bodyAtoms bodies p)" and i: "i < length bodies"
  shows "count_list (bodyAtoms bodies i) a = (if i = p then 1 else 0)"
proof -
  let ?xss = "map (\<lambda>b. map fst (allAtoms b)) bodies"
  have nth: "?xss ! j = bodyAtoms bodies j" if "j < length bodies" for j
    using that by (simp add: bodyAtoms_def)
  have dc: "distinct (concat ?xss)" using d by (simp add: focalAtoms_def)
  have di: "distinct (bodyAtoms bodies i)"
    using distinct_concat_nth [OF dc, of i] i nth by simp
  show ?thesis
  proof (cases "a \<in> set (bodyAtoms bodies i)")
    case True
    have "a \<in> set (?xss ! i)" using True nth [OF i] by (simp only:)
    moreover have "a \<in> set (?xss ! p)" using a nth [OF p] by (simp only:)
    ultimately have "i = p"
      using distinct_concat_same_index [OF dc, of i p a] i p by simp
    then show ?thesis using True di by (simp add: count_list_distinct)
  next
    case False
    then have "i \<noteq> p" using a by auto
    then show ?thesis using False di by (simp add: count_list_distinct)
  qed
qed

lemma kernel_count_nonbonded:
  assumes d: "distinct (focalAtoms (duMMSubsetOfBodies mm))"
      and p: "p < length (duMMSubsetOfBodies mm)" and q: "q < length (duMMSubsetOfBodies mm)"
      and a: "a \<in> set (bodyAtoms (duMMSubsetOfBodies mm) p)"
      and b: "b \<in> set (bodyAtoms (duMMSubsetOfBodies mm) q)"
  shows "count_list (kernelInteractions mm) (NonBonded a b) = (if p < q then 1 else 0)"
proof -
  let ?bodies = "duMMSubsetOfBodies mm"
  let ?nb = "length ?bodies"
  let ?S = "\<lambda>i. sum_list (map (\<lambda>i2. count_list (bodyAtoms ?bodies i2) b) [Suc i ..< ?nb])"
  have S: "?S i = (if i < q then 1 else 0)" for i
  proof -
    have "map (\<lambda>i2. count_list (bodyAtoms ?bodies i2) b) [Suc i ..< ?nb]
          = map (\<lambda>i2. if i2 = q then 1 else 0) [Suc i ..< ?nb]"
      using bodyAtoms_count [OF d q b] by (intro map_cong) simp_all
    then have "?S i = sum_list (map (\<lambda>i2. if i2 = q then 1 else 0) [Suc i ..< ?nb])"
      by (simp only:)
    also have "\<dots> = (if Suc i \<le> q \<and> q < ?nb then 1 else 0)"
      using sum_list_upt_delta [of q "\<lambda>_. 1" "Suc i" ?nb] by simp
    finally show ?thesis using q by auto
  qed
  have per_body: "sum_list (map (\<lambda>ap. count_list (kernelBonded (atoms mm) (fst ap)) (NonBonded a b)
                      + count_list (kernelNonBonded ?bodies i (fst ap)) (NonBonded a b)) aps)
                  = count_list (map fst aps) a * ?S i" for i aps
    by (simp add: kernelBonded_NonBonded kernelNonBonded_count sum_list_indicator)
  have "count_list (kernelInteractions mm) (NonBonded a b)
        = sum_list (map (\<lambda>i. count_list (bodyAtoms ?bodies i) a * ?S i) [0 ..< ?nb])"
    unfolding kernelInteractions_def count_list_concat map_map comp_def count_list_append
      per_body bodyAtoms_def ..
  also have "\<dots> = sum_list (map (\<lambda>i. if i = p then ?S i else 0) [0 ..< ?nb])"
  proof -
    have "map (\<lambda>i. count_list (bodyAtoms ?bodies i) a * ?S i) [0 ..< ?nb]
          = map (\<lambda>i. if i = p then ?S i else 0) [0 ..< ?nb]"
      using bodyAtoms_count [OF d p a] by (intro map_cong) simp_all
    then show ?thesis by (simp only:)
  qed
  also have "\<dots> = ?S p"
    using sum_list_upt_delta [of p ?S 0 ?nb] p by simp
  finally show ?thesis by (simp add: S)
qed

lemma assignBody_bond12: "map bond12 (assignBody b as) = map bond12 as"
proof -
  have "map bond12 (fold (\<lambda>ap as'. as'[nat (fst ap) :=
                   (atomAt as' (fst ap))\<lparr>bodyIx := m, station_B := snd ap\<rparr>]) aps xs)
        = map bond12 xs" for aps m xs
  proof (induction aps arbitrary: xs)
    case Nil
    show ?case by simp
  next
    case (Cons ap aps)
    have "map bond12 (xs[nat (fst ap) := (atomAt xs (fst ap))\<lparr>bodyIx := m, station_B := snd ap\<rparr>])
          = map bond12 xs"
      by (cases "nat (fst ap) < length xs")
         (simp_all add: map_update atomAt_def list_update_beyond list_update_same_conv)
    then show ?case using Cons.IH by simp
  qed
  then show ?thesis by (simp add: assignBody_def)
qed

lemma assignBodies_bond12:
  "map bond12 (assignBodies bodies (map Atom_invalidateTopologicalCache as)) = map bond12 as"
proof -
  have "map bond12 (fold assignBody bodies xs) = map bond12 xs" for xs
    by (induction bodies arbitrary: xs) (simp_all add: assignBody_bond12)
  then show ?thesis
    by (simp add: assignBodies_def comp_def Atom_invalidateTopologicalCache_def)
qed

lemma realizeAtom_bodies:
  "duMMSubsetOfBodies (snd (snd (realizeAtom anum (s, mm)))) = duMMSubsetOfBodies mm"
  by (simp add: realizeAtom_result)

lemma realizeAtomLoop_cross:
  assumes g: "graphOk N n"
  shows "storeInv N B n (atoms mm) \<Longrightarrow> k \<le> n
         \<Longrightarrow> (\<forall>i < k. crossListsOk N B i (atoms mm ! i))
         \<Longrightarrow> realizeAtomLoop [k ..< n] (s, mm) = (s', None, mm')
         \<Longrightarrow> (\<forall>i < n. crossListsOk N B i (atoms mm' ! i))
             \<and> length (atoms mm') = n
             \<and> duMMSubsetOfBodies mm' = duMMSubsetOfBodies mm"
proof (induction "n - k" arbitrary: k s mm)
  case 0
  then have "k = n" by simp
  then show ?case using "0.prems" by (simp add: storeInv_def)
next
  case (Suc m)
  have k: "k < n" using Suc.hyps by simp
  obtain s1 e1 mm1 where r: "realizeAtom (int k) (s, mm) = (s1, e1, mm1)"
    by (cases "realizeAtom (int k) (s, mm)")
  have upt: "[k ..< n] = k # [Suc k ..< n]" using k by (simp add: upt_conv_Cons)
  have e1: "e1 = None" and rest: "realizeAtomLoop [Suc k ..< n] (s1, mm1) = (s', None, mm')"
    using Suc.prems(4) by (cases e1; simp add: upt r)+
  have step: "storeInv N B n (atoms mm1)
              \<and> (\<forall>j. j \<noteq> k \<longrightarrow> atoms mm1 ! j = atoms mm ! j)
              \<and> crossListsOk N B k (atoms mm1 ! k)"
    using realizeAtom_step [OF Suc.prems(1) g k, of s] by (simp add: r)
  have all: "\<forall>i < Suc k. crossListsOk N B i (atoms mm1 ! i)"
    using step Suc.prems(3) by (auto simp: less_Suc_eq)
  have bodies1: "duMMSubsetOfBodies mm1 = duMMSubsetOfBodies mm"
    using realizeAtom_bodies [of "int k" s mm] by (simp add: r)
  have "m = n - Suc k" using Suc.hyps by simp
  then show ?case
    using Suc.hyps(1) [of "Suc k" mm1 s1] step all rest k bodies1 by simp
qed

lemma cross_symmetric:
  assumes g: "graphOk N n" and all: "\<forall>i < n. crossListsOk N B i (as ! i)" and i: "i < n"
  shows "b \<in> set (xbond12 (as ! i)) \<Longrightarrow>
           0 \<le> b \<and> b < int n \<and> b \<noteq> int i \<and> int i \<in> set (xbond12 (as ! nat b))"
    and "(b, c) \<in> set (xbond13 (as ! i)) \<Longrightarrow>
           0 \<le> c \<and> c < int n \<and> c \<noteq> int i \<and> (b, int i) \<in> set (xbond13 (as ! nat c))"
    and "(b, c, d) \<in> set (xbond14 (as ! i)) \<Longrightarrow>
           0 \<le> d \<and> d < int n \<and> d \<noteq> int i \<and> (c, b, int i) \<in> set (xbond14 (as ! nat d))"
proof -
  have rng: "0 \<le> y \<and> y < int n \<and> y \<noteq> int x \<and> int x \<in> N (nat y) \<and> nat y < n"
    if "x < n" "y \<in> N x" for x y
  proof -
    have "0 \<le> y \<and> y < int n \<and> y \<noteq> int x \<and> int x \<in> N (nat y)"
      using g that by (simp add: graphOk_def)
    moreover from this have "nat y < n" by linarith
    ultimately show ?thesis by simp
  qed
  have ok: "crossListsOk N B x (as ! x)" if "x < n" for x using all that by simp
  {
    assume "b \<in> set (xbond12 (as ! i))"
    then have b: "b \<in> N i" "B (nat b) \<noteq> B i" using ok [OF i] by (simp_all add: crossListsOk_def)
    have r: "0 \<le> b \<and> b < int n \<and> b \<noteq> int i \<and> int i \<in> N (nat b) \<and> nat b < n"
      using rng [OF i b(1)] .
    then have "int i \<in> set (xbond12 (as ! nat b))"
      using ok [of "nat b"] b by (simp add: crossListsOk_def)
    then show "0 \<le> b \<and> b < int n \<and> b \<noteq> int i \<and> int i \<in> set (xbond12 (as ! nat b))"
      using r by simp
  }
  {
    assume "(b, c) \<in> set (xbond13 (as ! i))"
    then have bc: "b \<in> N i" "c \<in> N (nat b)" "c \<noteq> int i"
        "B (nat b) \<noteq> B i \<or> B (nat c) \<noteq> B i"
      using ok [OF i] by (simp_all add: crossListsOk_def)
    have rb: "0 \<le> b \<and> b < int n \<and> b \<noteq> int i \<and> int i \<in> N (nat b) \<and> nat b < n"
      using rng [OF i bc(1)] .
    have rc: "0 \<le> c \<and> c < int n \<and> c \<noteq> int (nat b) \<and> int (nat b) \<in> N (nat c) \<and> nat c < n"
      using rng [of "nat b" c] rb bc(2) by simp
    have "b \<in> N (nat c)" using rc rb by simp
    moreover have "B (nat b) \<noteq> B (nat c) \<or> B i \<noteq> B (nat c)" using bc(4) by auto
    ultimately have "(b, int i) \<in> set (xbond13 (as ! nat c))"
      using ok [of "nat c"] rc rb bc by (simp add: crossListsOk_def)
    then show "0 \<le> c \<and> c < int n \<and> c \<noteq> int i \<and> (b, int i) \<in> set (xbond13 (as ! nat c))"
      using rc bc by simp
  }
  {
    assume "(b, c, d) \<in> set (xbond14 (as ! i))"
    then have bcd: "b \<in> N i" "c \<in> N (nat b)" "c \<noteq> int i" "d \<in> N (nat c)" "d \<noteq> int i"
        "d \<noteq> b" "B (nat b) \<noteq> B i \<or> B (nat c) \<noteq> B i \<or> B (nat d) \<noteq> B i"
      using ok [OF i] by (simp_all add: crossListsOk_def)
    have rb: "0 \<le> b \<and> b < int n \<and> b \<noteq> int i \<and> int i \<in> N (nat b) \<and> nat b < n"
      using rng [OF i bcd(1)] .
    have rc: "0 \<le> c \<and> c < int n \<and> c \<noteq> int (nat b) \<and> int (nat b) \<in> N (nat c) \<and> nat c < n"
      using rng [of "nat b" c] rb bcd(2) by simp
    have rd: "0 \<le> d \<and> d < int n \<and> d \<noteq> int (nat c) \<and> int (nat c) \<in> N (nat d) \<and> nat d < n"
      using rng [of "nat c" d] rc bcd(4) by simp
    have "c \<in> N (nat d)" "b \<in> N (nat c)" "b \<noteq> d" "int i \<in> N (nat b)" using rd rc rb bcd by simp_all
    moreover have "B (nat c) \<noteq> B (nat d) \<or> B (nat b) \<noteq> B (nat d) \<or> B i \<noteq> B (nat d)"
      using bcd(7) by auto
    ultimately have "(c, b, int i) \<in> set (xbond14 (as ! nat d))"
      using ok [of "nat d"] rd rc rb bcd by (simp add: crossListsOk_def)
    then show "0 \<le> d \<and> d < int n \<and> d \<noteq> int i \<and> (c, b, int i) \<in> set (xbond14 (as ! nat d))"
      using rd bcd by simp
  }
qed

lemma count_focal:
  assumes "bodiesPartitionAtoms mm" and "i < length (atoms mm)"
  shows "count_list (focalAtoms (duMMSubsetOfBodies mm)) (int i) = 1"
  using assms by (simp add: bodiesPartitionAtoms_def count_list_distinct)

subsection \<open>The chain of three atoms\<close>

lemma chain_fields:
  "atoms chainRep = [newAtom 0 0 [1], newAtom 1 1 [0, 2], newAtom 2 2 [1]]"
  "duMMSubsetOfBodies chainRep =
     [\<lparr>clusterIndex = 1, mobilizedBodyIndex = 1, allAtoms = [(0, vzero)]\<rparr>,
      \<lparr>clusterIndex = 2, mobilizedBodyIndex = 2, allAtoms = [(1, vzero)]\<rparr>,
      \<lparr>clusterIndex = 3, mobilizedBodyIndex = 3, allAtoms = [(2, vzero)]\<rparr>]"
  "atomClasses chainRep = [exClass 0, exClass 1, exClass 2]"
  "chargedAtomTypes chainRep = [exType 0 0, exType 1 1, exType 2 2]"
  "bondStretch chainRep = [(0, 1) \<mapsto> exStretch (0, 1), (1, 2) \<mapsto> exStretch (1, 2)]"
  "bondBend chainRep = [(0, 1, 2) \<mapsto> exBend (0, 1, 2)]"
  "bondTorsion chainRep = Map.empty"
  "amberImproperTorsion chainRep = Map.empty"
  by (simp_all add: chainRep_def newRep_def)

lemma chain_assignBodies:
  "assignBodies (duMMSubsetOfBodies chainRep) (map Atom_invalidateTopologicalCache (atoms chainRep))
   = chainBodied"
  by (simp add: chain_fields chainBodied_def assignBodies_def assignBody_def DuMMBody_isValid_def
        atomAt_def Atom_invalidateTopologicalCache_def InvalidIndex_def newAtom_def vzero_def
        invalidTriple_def)

lemmas bbl_defs = buildBondLists_def build13_def step13_def build14_def buildShort14_def
  stepShort14_def build15_def buildShort15_def stepShort15_def atomAt_def Let_def

lemmas cbl_defs = crossBodyLists_def onOtherBody_def atomAt_def Let_def invalidTriple_def
  InvalidIndex_def

lemmas lookup_defs = realizeAtomParams_def lookupStretch_def lookupBend_def lookupTorsion_def
  resizeVec_def getBondStretch_def getBondBend_def getBondTorsion_def
  getAtomClassIndex_def atomAt_def
  BondStretch_isValid_def BondBend_isValid_def BondTorsion_isValid_def
  realizeImproper_def chain_fields exType_def exStretch_def exBend_def Let_def
  dummyBondStretch_def dummyBondBend_def dummyBondTorsion_def mkBondTorsion_def InvalidIndex_def
  invalidTriple_def

lemma chain_lists0:
  "crossBodyLists (chainBodied[0 := buildBondLists chainBodied 0]) (buildBondLists chainBodied 0)
   = (newAtom 0 0 [1])
     \<lparr>bodyIx := 1, bond13 := [(1, 2)], shortPath13 := [(1, 2)],
      xbond12 := [1], xbond13 := [(1, 2)], xshortPath13 := [(1, 2)]\<rparr>"
proof -
  have b: "buildBondLists chainBodied 0
           = (newAtom 0 0 [1])\<lparr>bodyIx := 1, bond13 := [(1, 2)], shortPath13 := [(1, 2)]\<rparr>"
    by (simp add: chainBodied_def newAtom_def bbl_defs)
  show ?thesis
    unfolding b by (simp add: chainBodied_def newAtom_def cbl_defs)
qed

lemma chain_realize0:
  "realizeAtom 0 (None, chainRep\<lparr>atoms := chainBodied\<rparr>)
   = (None, None, chainRep\<lparr>atoms := chainBodied[0 := chainAtom0]\<rparr>)"
  apply (simp add: realizeAtom_def Let_def)
  apply (simp only: chain_lists0)
  apply (simp add: chainBodied_def chainAtom0_def newAtom_def lookup_defs)
  done

lemma chain_lists1:
  "crossBodyLists (chainBodied[0 := chainAtom0, Suc 0 := buildBondLists (chainBodied[0 := chainAtom0]) 1])
     (buildBondLists (chainBodied[0 := chainAtom0]) 1)
   = (newAtom 1 1 [0, 2])\<lparr>bodyIx := 2, xbond12 := [0, 2]\<rparr>"
proof -
  have b: "buildBondLists (chainBodied[0 := chainAtom0]) 1 = (newAtom 1 1 [0, 2])\<lparr>bodyIx := 2\<rparr>"
    by (simp add: chainBodied_def chainAtom0_def newAtom_def bbl_defs)
  show ?thesis
    unfolding b by (simp add: chainBodied_def chainAtom0_def newAtom_def cbl_defs)
qed

lemma chain_realize1:
  "realizeAtom 1 (None, chainRep\<lparr>atoms := chainBodied[0 := chainAtom0]\<rparr>)
   = (None, None, chainRep\<lparr>atoms := chainBodied[0 := chainAtom0, Suc 0 := chainAtom1]\<rparr>)"
  apply (simp add: realizeAtom_def Let_def)
  apply (simp only: chain_lists1)
  apply (simp add: chainBodied_def chainAtom0_def chainAtom1_def newAtom_def lookup_defs)
  done

lemma chain_lists2:
  "crossBodyLists (chainBodied[0 := chainAtom0, Suc 0 := chainAtom1,
       2 := buildBondLists (chainBodied[0 := chainAtom0, Suc 0 := chainAtom1]) 2])
     (buildBondLists (chainBodied[0 := chainAtom0, Suc 0 := chainAtom1]) 2)
   = (newAtom 2 2 [1])
     \<lparr>bodyIx := 3, bond13 := [(1, 0)], shortPath13 := [(1, 0)],
      xbond12 := [1], xbond13 := [(1, 0)], xshortPath13 := [(1, 0)]\<rparr>"
proof -
  have b: "buildBondLists (chainBodied[0 := chainAtom0, Suc 0 := chainAtom1]) 2
           = (newAtom 2 2 [1])\<lparr>bodyIx := 3, bond13 := [(1, 0)], shortPath13 := [(1, 0)]\<rparr>"
    by (simp add: chainBodied_def chainAtom0_def chainAtom1_def newAtom_def bbl_defs)
  show ?thesis
    unfolding b by (simp add: chainBodied_def chainAtom0_def chainAtom1_def newAtom_def cbl_defs)
qed

lemma chain_realize2:
  "realizeAtom 2 (None, chainRep\<lparr>atoms := chainBodied[0 := chainAtom0, Suc 0 := chainAtom1]\<rparr>)
   = (None, None, chainRealized)"
  apply (simp add: realizeAtom_def Let_def)
  apply (simp only: chain_lists2)
  apply (simp add: chainRealized_def chainBodied_def chainAtom0_def chainAtom1_def chainAtom2_def
           newAtom_def lookup_defs)
  done

lemma chain_realize:
  "realizeSubsystemTopologyImpl (None, chainRep) = (None, None, chainRealized)"
proof -
  have len: "length chainBodied = 3" by (simp add: chainBodied_def)
  have upt: "[0 ..< 3] = [0, 1, 2]" by (simp add: upt_conv_Cons)
  have valid: "list_all (\<lambda>a. isValidChargedAtomType chainRep (chargedAtomTypeIndex a)) (atoms chainRep)"
    by (simp add: chain_fields newAtom_def exType_def isValidChargedAtomType_def
          ChargedAtomType_isValid_def)
  show ?thesis
    by (simp add: realizeSubsystemTopologyImpl_def valid chain_assignBodies len upt
          chain_realize0 chain_realize1 chain_realize2)
qed

lemma chain_bondGraphOk: "bondGraphOk (atoms chainRep)"
  by (auto simp: bondGraphOk_def chain_fields newAtom_def less_Suc_eq numeral_3_eq_3)

lemma chain_bodiesPartitionAtoms: "bodiesPartitionAtoms chainRep"
  by (auto simp: bodiesPartitionAtoms_def focalAtoms_def chain_fields)

lemma chainRealized_fields:
  "atoms chainRealized = [chainAtom0, chainAtom1, chainAtom2]"
  "duMMSubsetOfBodies chainRealized = duMMSubsetOfBodies chainRep"
  by (simp_all add: chainRealized_def)

subsection \<open>The kernel\<close>

text \<open>
  Claim C2. Let the bond graph be as \<^verbatim>\<open>addBond\<close> builds it, let every atom be attached to
  exactly one body, and let topology realization succeed. Then in one pass of the kernel
  over the realized subsystem:

  \<^item> a cross-body 1-2 entry \<open>j\<close> of atom \<open>i\<close> has its mirror image \<open>i\<close> in the list of
    atom \<open>j\<close>, and the stretch \<open>(i, j)\<close> is evaluated once if \<open>i < j\<close> and not at all
    otherwise, so each bond is evaluated exactly once, from its lower end;
  \<^item> a cross-body 1-3 entry \<open>(b, c)\<close> of atom \<open>i\<close> has its mirror image \<open>(b, i)\<close> in the
    list of atom \<open>c\<close>, and the bend \<open>(i, b, c)\<close> is evaluated once if \<open>i < c\<close> and not at
    all otherwise (the last atom differs from the focal atom, so here "not less than" and
    "greater than" agree);
  \<^item> a cross-body 1-4 entry \<open>(b, c, d)\<close> of atom \<open>i\<close> has its mirror image \<open>(c, b, i)\<close> in
    the list of atom \<open>d\<close>, and the torsion \<open>(i, b, c, d)\<close> is evaluated once if \<open>i < d\<close>
    and not at all otherwise;
  \<^item> an improper torsion around atom \<open>i\<close> is evaluated as many times as it stands in the
    improper list of atom \<open>i\<close>: no entry is skipped;
  \<^item> for atoms \<open>a\<close> of body \<open>p\<close> and \<open>b\<close> of body \<open>q\<close>, the nonbonded pair \<open>(a, b)\<close> is
    evaluated once if \<open>p < q\<close> and not at all otherwise, so each pair of atoms on
    different bodies is evaluated exactly once and no pair within a body is evaluated.
\<close>

theorem kernel_evaluates_each_interaction_once:
  assumes bonds: "bondGraphOk (atoms mm)"
      and bodies: "bodiesPartitionAtoms mm"
      and realized: "realizeSubsystemTopologyImpl (static_bt, mm) = (static_bt', None, mm')"
  shows "(\<forall>i < length (atoms mm'). \<forall>j \<in> set (xbond12 (atoms mm' ! i)).
            int i \<in> set (xbond12 (atomAt (atoms mm') j))
            \<and> count_list (kernelInteractions mm') (Stretch (int i) j)
                = (if int i < j then 1 else 0))
       \<and> (\<forall>i < length (atoms mm'). \<forall>(b, c) \<in> set (xbond13 (atoms mm' ! i)).
            (b, int i) \<in> set (xbond13 (atomAt (atoms mm') c))
            \<and> count_list (kernelInteractions mm') (Bend (int i) b c)
                = (if int i < c then 1 else 0))
       \<and> (\<forall>i < length (atoms mm'). \<forall>(b, c, d) \<in> set (xbond14 (atoms mm' ! i)).
            (c, b, int i) \<in> set (xbond14 (atomAt (atoms mm') d))
            \<and> count_list (kernelInteractions mm') (Torsion (int i) b c d)
                = (if int i < d then 1 else 0))
       \<and> (\<forall>i < length (atoms mm'). \<forall>b c d.
            count_list (kernelInteractions mm') (ImproperTorsion b c (int i) d)
            = count_list (aImproperTorsion14 (atoms mm' ! i)) (b, c, d))
       \<and> (\<forall>p < length (duMMSubsetOfBodies mm'). \<forall>q < length (duMMSubsetOfBodies mm').
            \<forall>a \<in> set (bodyAtoms (duMMSubsetOfBodies mm') p).
            \<forall>b \<in> set (bodyAtoms (duMMSubsetOfBodies mm') q).
              count_list (kernelInteractions mm') (NonBonded a b) = (if p < q then 1 else 0))"
proof -
  define n where "n = length (atoms mm)"
  define as2 where
    "as2 = assignBodies (duMMSubsetOfBodies mm) (map Atom_invalidateTopologicalCache (atoms mm))"
  define N where "N = (\<lambda>i. set (bond12 (atoms mm ! i)))"
  define B where "B = (\<lambda>i. bodyIx (as2 ! i))"
  let ?as = "atoms mm'"
  let ?K = "kernelInteractions mm'"
  have len2: "length as2 = n" by (simp add: as2_def n_def assignBodies_length)
  have loop: "realizeAtomLoop [0 ..< n] (static_bt, mm\<lparr>atoms := as2\<rparr>) = (static_bt', None, mm')"
    using realized len2
    by (simp add: realizeSubsystemTopologyImpl_def Let_def as2_def [symmetric] split: if_splits)
  have b12: "bond12 (as2 ! i) = bond12 (atoms mm ! i)" if "i < n" for i
  proof -
    have "map bond12 as2 ! i = map bond12 (atoms mm) ! i"
      by (simp only: as2_def assignBodies_bond12)
    then show ?thesis using that len2 by (simp add: n_def)
  qed
  have inv: "storeInv N B n (atoms (mm\<lparr>atoms := as2\<rparr>))"
    using bonds by (simp add: storeInv_def len2 b12 N_def B_def bondGraphOk_def n_def)
  have g: "graphOk N n"
    using bonds by (simp add: graphOk_def N_def bondGraphOk_def n_def)
  have fin: "(\<forall>i < n. crossListsOk N B i (?as ! i)) \<and> length ?as = n
             \<and> duMMSubsetOfBodies mm' = duMMSubsetOfBodies (mm\<lparr>atoms := as2\<rparr>)"
    using realizeAtomLoop_cross [OF g inv _ _ loop] by simp
  then have ok: "\<forall>i < n. crossListsOk N B i (?as ! i)" and len: "length ?as = n"
    and bd: "duMMSubsetOfBodies mm' = duMMSubsetOfBodies mm" by simp_all
  have part: "bodiesPartitionAtoms mm'"
    using bodies by (simp add: bodiesPartitionAtoms_def bd len n_def)
  have focal: "count_list (focalAtoms (duMMSubsetOfBodies mm')) (int i) = 1" if "i < n" for i
    using count_focal [OF part, of i] that len by simp
  have okd: "distinct (xbond12 (?as ! i))" "distinct (xbond13 (?as ! i))"
      "distinct (xbond14 (?as ! i))" if "i < n" for i
    using ok that by (simp_all add: crossListsOk_def)
  have at: "atomAt ?as (int i) = ?as ! i" for i by (simp add: atomAt_def)
  have stretch: "int i \<in> set (xbond12 (atomAt ?as j))
                 \<and> count_list ?K (Stretch (int i) j) = (if int i < j then 1 else 0)"
    if i: "i < n" and j: "j \<in> set (xbond12 (?as ! i))" for i j
  proof -
    have s: "0 \<le> j \<and> j < int n \<and> j \<noteq> int i \<and> int i \<in> set (xbond12 (?as ! nat j))"
      using cross_symmetric(1) [OF g ok i j] .
    have "count_list ?K (Stretch (int i) j)
          = count_list (focalAtoms (duMMSubsetOfBodies mm')) (int i)
            * count_list (kernelBonded ?as (int i)) (Stretch (int i) j)"
      by (rule kernel_count_bonded) (simp_all add: kernelNonBonded_no_bonded kernelBonded_Stretch)
    also have "\<dots> = (if int i < j then 1 else 0)"
      using s j okd(1) [OF i] by (auto simp: focal i kernelBonded_Stretch at count_list_distinct)
    finally show ?thesis using s by (simp add: atomAt_def)
  qed
  have bend: "(b, int i) \<in> set (xbond13 (atomAt ?as c))
              \<and> count_list ?K (Bend (int i) b c) = (if int i < c then 1 else 0)"
    if i: "i < n" and bc: "(b, c) \<in> set (xbond13 (?as ! i))" for i b c
  proof -
    have s: "0 \<le> c \<and> c < int n \<and> c \<noteq> int i \<and> (b, int i) \<in> set (xbond13 (?as ! nat c))"
      using cross_symmetric(2) [OF g ok i bc] .
    have "count_list ?K (Bend (int i) b c)
          = count_list (focalAtoms (duMMSubsetOfBodies mm')) (int i)
            * count_list (kernelBonded ?as (int i)) (Bend (int i) b c)"
      by (rule kernel_count_bonded) (simp_all add: kernelNonBonded_no_bonded kernelBonded_Bend)
    also have "\<dots> = (if int i < c then 1 else 0)"
      using s bc okd(2) [OF i] by (auto simp: focal i kernelBonded_Bend at count_list_distinct)
    finally show ?thesis using s by (simp add: atomAt_def)
  qed
  have tors: "(c, b, int i) \<in> set (xbond14 (atomAt ?as d))
              \<and> count_list ?K (Torsion (int i) b c d) = (if int i < d then 1 else 0)"
    if i: "i < n" and bcd: "(b, c, d) \<in> set (xbond14 (?as ! i))" for i b c d
  proof -
    have s: "0 \<le> d \<and> d < int n \<and> d \<noteq> int i \<and> (c, b, int i) \<in> set (xbond14 (?as ! nat d))"
      using cross_symmetric(3) [OF g ok i bcd] .
    have "count_list ?K (Torsion (int i) b c d)
          = count_list (focalAtoms (duMMSubsetOfBodies mm')) (int i)
            * count_list (kernelBonded ?as (int i)) (Torsion (int i) b c d)"
      by (rule kernel_count_bonded) (simp_all add: kernelNonBonded_no_bonded kernelBonded_Torsion)
    also have "\<dots> = (if int i < d then 1 else 0)"
      using s bcd okd(3) [OF i] by (auto simp: focal i kernelBonded_Torsion at count_list_distinct)
    finally show ?thesis using s by (simp add: atomAt_def)
  qed
  have impr: "count_list ?K (ImproperTorsion b c (int i) d)
              = count_list (aImproperTorsion14 (?as ! i)) (b, c, d)" if i: "i < n" for i b c d
  proof -
    have "count_list ?K (ImproperTorsion b c (int i) d)
          = count_list (focalAtoms (duMMSubsetOfBodies mm')) (int i)
            * count_list (kernelBonded ?as (int i)) (ImproperTorsion b c (int i) d)"
      by (rule kernel_count_bonded) (simp_all add: kernelNonBonded_no_bonded kernelBonded_Improper)
    then show ?thesis by (simp add: focal i kernelBonded_Improper at)
  qed
  have nonb: "count_list ?K (NonBonded a b) = (if p < q then 1 else 0)"
    if "p < length (duMMSubsetOfBodies mm')" "q < length (duMMSubsetOfBodies mm')"
       "a \<in> set (bodyAtoms (duMMSubsetOfBodies mm') p)"
       "b \<in> set (bodyAtoms (duMMSubsetOfBodies mm') q)" for p q a b
    using kernel_count_nonbonded [OF _ that] part by (simp add: bodiesPartitionAtoms_def)
  show ?thesis
    using stretch bend tors impr nonb by (auto simp: len)
qed

theorem kernel_evaluates_each_interaction_once_witness:
  "bondGraphOk (atoms chainRep) \<and> bodiesPartitionAtoms chainRep
   \<and> realizeSubsystemTopologyImpl (None, chainRep) = (None, None, chainRealized)
   \<and> count_list (kernelInteractions chainRealized) (Stretch 0 1) = 1
   \<and> count_list (kernelInteractions chainRealized) (Stretch 1 0) = 0
   \<and> count_list (kernelInteractions chainRealized) (Bend 0 1 2) = 1
   \<and> count_list (kernelInteractions chainRealized) (Bend 2 1 0) = 0
   \<and> count_list (kernelInteractions chainRealized) (NonBonded 0 2) = 1
   \<and> count_list (kernelInteractions chainRealized) (NonBonded 2 0) = 0"
proof -
  note t = kernel_evaluates_each_interaction_once
             [OF chain_bondGraphOk chain_bodiesPartitionAtoms chain_realize]
  note s = t [THEN conjunct1, rule_format]
  note b = t [THEN conjunct2, THEN conjunct1, rule_format]
  note n = t [THEN conjunct2, THEN conjunct2, THEN conjunct2, THEN conjunct2, rule_format]
  have s01: "count_list (kernelInteractions chainRealized) (Stretch 0 1) = 1"
    using s [of 0 1] by (simp add: chainRealized_fields chainAtom0_def)
  have s10: "count_list (kernelInteractions chainRealized) (Stretch 1 0) = 0"
    using s [of 1 0] by (simp add: chainRealized_fields chainAtom1_def)
  have b012: "count_list (kernelInteractions chainRealized) (Bend 0 1 2) = 1"
    using b [of 0 "(1, 2)"] by (simp add: chainRealized_fields chainAtom0_def)
  have b210: "count_list (kernelInteractions chainRealized) (Bend 2 1 0) = 0"
    using b [of 2 "(1, 0)"] by (simp add: chainRealized_fields chainAtom2_def)
  have n02: "count_list (kernelInteractions chainRealized) (NonBonded 0 2) = 1"
    using n [of 0 2 0 2] by (simp add: chainRealized_fields chain_fields bodyAtoms_def)
  have n20: "count_list (kernelInteractions chainRealized) (NonBonded 2 0) = 0"
    using n [of 2 0 2 0] by (simp add: chainRealized_fields chain_fields bodyAtoms_def)
  show ?thesis
    using chain_bondGraphOk chain_bodiesPartitionAtoms chain_realize s01 s10 b012 b210 n02 n20
    by simp
qed

end
